theory Spec2Isabelle
  imports Main "HOL-Library.Word"
begin

section \<open>JavaScript values used by the gateway\<close>

text \<open>
  A nullable string property is a \<open>string option\<close>; \<open>None\<close> stands for
  \<open>undefined\<close> and \<open>null\<close>. JavaScript treats \<open>undefined\<close>, \<open>null\<close> and the
  empty string as falsy, every other string as truthy.
\<close>

definition truthy :: "string option \<Rightarrow> bool" where
  "truthy v = (case v of None \<Rightarrow> False | Some s \<Rightarrow> s \<noteq> [])"

text \<open>
  A property of \<open>req.query\<close>: the query parser gives a string for a parameter that
  occurs once, an array for a repeated or bracketed one and an object for a keyed one.
  Arrays and objects are truthy, also when empty.
\<close>

datatype qvalue = QStr string | QArr "string list" | QObj "(string \<times> string) list"

definition q_truthy :: "qvalue option \<Rightarrow> bool" where
  "q_truthy v = (case v of None \<Rightarrow> False | Some (QStr s) \<Rightarrow> s \<noteq> [] | Some _ \<Rightarrow> True)"

text \<open>\<open>a || 'literal'\<close>: the right operand is a string, so the result is one.\<close>

definition or_default :: "string option \<Rightarrow> string \<Rightarrow> string" where
  "or_default a d = (case a of None \<Rightarrow> d | Some s \<Rightarrow> if s = [] then d else s)"

fun is_prefix :: "string \<Rightarrow> string \<Rightarrow> bool" where
  "is_prefix [] s = True"
| "is_prefix (p # ps) [] = False"
| "is_prefix (p # ps) (c # cs) = (p = c \<and> is_prefix ps cs)"

text \<open>\<open>s.includes(t)\<close>.\<close>

fun str_includes :: "string \<Rightarrow> string \<Rightarrow> bool" where
  "str_includes [] t = (t = [])"
| "str_includes (c # cs) t = (is_prefix t (c # cs) \<or> str_includes cs t)"

definition digit_char :: "nat \<Rightarrow> char" where
  "digit_char d = ''0123456789'' ! d"

text \<open>The decimal numeral of a natural number, as \<open>toString()\<close> and template literals
  print an integer.\<close>

function string_of_nat :: "nat \<Rightarrow> string" where
  "string_of_nat n =
     (if n < 10 then [digit_char n]
      else string_of_nat (n div 10) @ [digit_char (n mod 10)])"
  by pat_completeness auto
termination
  by (relation "measure id") auto

declare string_of_nat.simps [simp del]

text \<open>\<open>toString()\<close> of an integer that a number holds exactly, and its print in a
  template literal.\<close>

definition ToString :: "int \<Rightarrow> string" where
  "ToString i = (if i < 0 then ''-'' @ string_of_nat (nat (- i)) else string_of_nat (nat i))"

text \<open>\<open>s.split('?')[0]\<close>.\<close>

definition before_question_mark :: "string \<Rightarrow> string" where
  "before_question_mark s = takeWhile (\<lambda>c. c \<noteq> CHR ''?'') s"

section \<open>Process configuration\<close>

record config =
  env_NETWORK :: "string option"
  env_FACILITATOR_URL :: "string option"
  env_ZEDKR_DOMAIN :: "string option"

definition network_of :: "config \<Rightarrow> string" where
  "network_of cfg = or_default (env_NETWORK cfg) ''testnet''"

definition facilitatorUrl_of :: "config \<Rightarrow> string" where
  "facilitatorUrl_of cfg = or_default (env_FACILITATOR_URL cfg) ''https://facilitator.stacksx402.com''"

definition ZEDKR_DOMAIN :: "config \<Rightarrow> string" where
  "ZEDKR_DOMAIN cfg = or_default (env_ZEDKR_DOMAIN cfg) ''https://zedkr.up.railway.app''"

section \<open>Human-readable price\<close>

text \<open>
  \<^verbatim>\<open>(parseInt(endpoint.price_microstx) / 1000000).toFixed(6).replace(/\.?0+$/, '')\<close>

  The price reaches the handler as a number. The model covers the integers from
  \<open>- 2 ^ 53\<close> to \<open>2 ^ 53 - 1\<close>, which a double holds exactly and prints digit by
  digit, so that \<open>parseInt\<close> gives the number back: a price is a 54-bit word, read as a
  signed integer by \<open>sint\<close>, and no word arithmetic is done on it.
\<close>

type_synonym microstx = "54 word"

text \<open>
  A non-zero double is a sign and a quotient of two natural numbers, the denominator a
  power of two and the numerator of at most 53 bits.

  The division by 1000000 in double arithmetic. \<open>scale_up a 1 b\<close> doubles \<open>a\<close> until
  it reaches \<open>b = 2 ^ 52 * 1000000\<close>, which gives the power of two \<open>w\<close> for which the
  quotient times \<open>w\<close> has 53 bits; the quotient is then rounded to the nearest multiple
  of \<open>1 / w\<close>, a tie going to the even numerator.
\<close>

function scale_up :: "nat \<Rightarrow> nat \<Rightarrow> nat \<Rightarrow> nat \<times> nat" where
  "scale_up a w b = (if a = 0 \<or> b \<le> a then (a, w) else scale_up (2 * a) (2 * w) b)"
  by pat_completeness auto
termination
  by (relation "measure (\<lambda>(a, w, b). b - a)") auto

declare scale_up.simps [simp del]

definition round_half_even :: "nat \<Rightarrow> nat \<Rightarrow> nat" where
  "round_half_even a b =
     (let q = a div b; r = a mod b
      in if b < 2 * r \<or> (2 * r = b \<and> odd q) then q + 1 else q)"

record double =
  negative :: bool
  numerator :: nat
  denominator :: nat

definition divide_1000000 :: "int \<Rightarrow> double" where
  "divide_1000000 i =
     (case scale_up (nat \<bar>i\<bar>) 1 4503599627370496000000 of
        (a, w) \<Rightarrow> \<lparr>negative = (i < 0), numerator = round_half_even a 1000000, denominator = w\<rparr>)"

text \<open>
  \<open>toFixed(6)\<close>: the integer \<open>n\<close> for which \<open>n / 1000000\<close> is nearest to the absolute
  value of the double, the larger one of two; then the sign, the digits of \<open>n\<close> before
  the last six, a point and the last six digits.
\<close>

definition round_half_up :: "nat \<Rightarrow> nat \<Rightarrow> nat" where
  "round_half_up a b = (let q = a div b; r = a mod b in if b \<le> 2 * r then q + 1 else q)"

definition six_digits :: "nat \<Rightarrow> string" where
  "six_digits r =
     [digit_char (r div 100000 mod 10), digit_char (r div 10000 mod 10),
      digit_char (r div 1000 mod 10), digit_char (r div 100 mod 10),
      digit_char (r div 10 mod 10), digit_char (r mod 10)]"

definition toFixed6 :: "double \<Rightarrow> string" where
  "toFixed6 x =
     (let n = round_half_up (numerator x * 1000000) (denominator x)
      in (if negative x then ''-'' else []) @
         string_of_nat (n div 1000000) @ ''.'' @ six_digits (n mod 1000000))"

text \<open>
  The regular expression \<^verbatim>\<open>/\.?0+$/\<close> matches, at a given position, an optional point
  followed by one or more zeros that reach the end of the string. \<open>replace\<close> removes
  the leftmost match only, which always extends to the end of the string.
\<close>

definition all_zeros :: "string \<Rightarrow> bool" where
  "all_zeros s = (s \<noteq> [] \<and> list_all (\<lambda>c. c = CHR ''0'') s)"

fun matches_here :: "string \<Rightarrow> bool" where
  "matches_here [] = False"
| "matches_here (c # cs) = ((c = CHR ''.'' \<and> all_zeros cs) \<or> all_zeros (c # cs))"

fun strip_zeros :: "string \<Rightarrow> string" where
  "strip_zeros [] = []"
| "strip_zeros (c # cs) = (if matches_here (c # cs) then [] else c # strip_zeros cs)"

definition priceSTX :: "microstx \<Rightarrow> string" where
  "priceSTX p = strip_zeros (toFixed6 (divide_1000000 (sint p)))"

text \<open>
  The specification's wording of the same string, for comparison with \<open>priceSTX\<close>: the
  price divided by 1,000,000, written as a decimal, with the trailing zeros of the
  fraction removed, and the point too when nothing is left of the fraction.
\<close>

definition spec_decimal :: "int \<Rightarrow> string" where
  "spec_decimal i =
     (let m = nat \<bar>i\<bar>;
          f = rev (dropWhile (\<lambda>c. c = CHR ''0'') (rev (six_digits (m mod 1000000))))
      in (if i < 0 then ''-'' else []) @ string_of_nat (m div 1000000) @
         (if f = [] then [] else ''.'' @ f))"

section \<open>Payment-requirement bodies and responses\<close>

record payment =
  payer :: string
  transaction :: "string option"
  network :: string

text \<open>One entry of the \<open>accepts\<close> array of a 402 body. The properties the gateway does
  not read are kept as one opaque string.\<close>

record accepts_entry =
  acc_amount :: "string option"
  acc_network :: "string option"
  acc_other :: string
  amountSTX :: "string option"

text \<open>The body the payment middleware hands to \<open>res.json\<close>; \<open>accepts\<close> is \<open>None\<close> when
  the property is missing or is not an array.\<close>

record mw_body =
  accepts :: "accepts_entry list option"
  mw_other :: string

text \<open>The values interpolated into the wallet-connect page of \<open>handleBrowserPayment\<close>.\<close>

record html_page =
  page_paymentInfo :: "accepts_entry option"
  page_amountMicroSTX :: string
  page_payTo :: string
  page_network :: string
  page_endpointUrl :: string

datatype body =
    ErrorJson string
  | Json mw_body
  | Html html_page
  | Data string

record http_response =
  status :: nat
  body :: body
  payment_response :: "payment option"

definition error_response :: "nat \<Rightarrow> string \<Rightarrow> http_response" where
  "error_response st msg = \<lparr>status = st, body = ErrorJson msg, payment_response = None\<rparr>"

text \<open>\<open>handleBrowserPayment\<close>: \<open>req.originalUrl.split('?')[0]\<close>,
  \<open>paymentData.accepts?.[0]\<close>, then \<open>paymentInfo?.amount || endpoint.price_microstx\<close>.
  The status stays the one the middleware set.\<close>

definition handleBrowserPayment ::
  "string \<Rightarrow> microstx \<Rightarrow> mw_body \<Rightarrow> string \<Rightarrow> string \<Rightarrow> nat \<Rightarrow> http_response" where
  "handleBrowserPayment originalUrl price paymentData developerWallet net st =
     (let paymentInfo = (case accepts paymentData of
                           Some (a # _) \<Rightarrow> Some a
                         | _ \<Rightarrow> None);
          amount = (case paymentInfo of
                      Some a \<Rightarrow> or_default (acc_amount a) (ToString (sint price))
                    | None \<Rightarrow> ToString (sint price))
      in \<lparr>status = st,
          body = Html \<lparr>page_paymentInfo = paymentInfo, page_amountMicroSTX = amount,
                       page_payTo = developerWallet, page_network = net,
                       page_endpointUrl = before_question_mark originalUrl\<rparr>,
          payment_response = None\<rparr>)"

text \<open>The replacement of \<open>res.json\<close> installed by the route before the payment
  middleware runs. \<open>st\<close> is \<open>res.statusCode\<close> at the time of the call.\<close>

definition add_amountSTX :: "string \<Rightarrow> mw_body \<Rightarrow> mw_body" where
  "add_amountSTX p b =
     (case accepts b of
        None \<Rightarrow> b
      | Some as \<Rightarrow> b\<lparr>accepts := Some (map (\<lambda>a. a\<lparr>amountSTX := Some p\<rparr>) as)\<rparr>)"

definition res_json ::
  "string \<Rightarrow> microstx \<Rightarrow> string \<Rightarrow> string \<Rightarrow> bool \<Rightarrow> bool \<Rightarrow> nat \<Rightarrow> mw_body \<Rightarrow> http_response" where
  "res_json originalUrl price developerWallet net isBrowserRequest hasPaymentSignature st b =
     (if st = 402 \<and> isBrowserRequest \<and> \<not> hasPaymentSignature
      then handleBrowserPayment originalUrl price b developerWallet net st
      else \<lparr>status = st,
            body = Json (if st = 402 then add_amountSTX (priceSTX price) b else b),
            payment_response = None\<rparr>)"

section \<open>The registry and the endpoint resolver\<close>

text \<open>
  One row of the \<open>endpoints\<close> table joined with its API and the API's owner, as the
  \<open>select\<close> of the route and of the materializer read it. A user registered by wallet
  has no username until one is set, so the username is nullable.
\<close>

record endpoint_row =
  row_id :: string
  endpoint_path :: string
  original_url :: string
  price_microstx :: microstx
  active :: bool
  monetized_url :: "string option"
  api_name_slug :: string
  username :: "string option"
  wallet_address :: string

type_synonym registry = "endpoint_row list"

text \<open>
  How a call to the registry client ends: it resolves with data, it resolves with its
  \<open>error\<close> field set, or the awaited promise rejects (the call throws).
\<close>

datatype db_outcome = Resolves | Resolves_error | Rejects

datatype thrown = Thrown

text \<open>\<open>.single()\<close>: the one row of the result; an error when there are none or several.\<close>

definition single :: "'a list \<Rightarrow> 'a option" where
  "single rows = (case rows of [r] \<Rightarrow> Some r | _ \<Rightarrow> None)"

text \<open>The four \<open>.eq\<close> filters of the route's query.\<close>

definition matches :: "string \<Rightarrow> string \<Rightarrow> string \<Rightarrow> endpoint_row \<Rightarrow> bool" where
  "matches u a p r =
     (username r = Some u \<and> api_name_slug r = a \<and> endpoint_path r = p \<and> active r = True)"

text \<open>The route's \<open>select\<close> list does not name \<open>monetized_url\<close>, so the property is
  undefined on the row the route holds.\<close>

definition route_columns :: "endpoint_row \<Rightarrow> endpoint_row" where
  "route_columns r = r\<lparr>monetized_url := None\<rparr>"

text \<open>The query of the route. \<open>Inl\<close>: the awaited query throws. \<open>Inr None\<close>: the
  condition \<open>error || !endpointData\<close> holds.\<close>

definition resolve_endpoint ::
  "db_outcome \<Rightarrow> registry \<Rightarrow> string \<Rightarrow> string \<Rightarrow> string \<Rightarrow> thrown + endpoint_row option" where
  "resolve_endpoint oc reg u a p =
     (case oc of
        Rejects \<Rightarrow> Inl Thrown
      | Resolves_error \<Rightarrow> Inr None
      | Resolves \<Rightarrow> Inr (map_option route_columns (single (filter (matches u a p) reg))))"

section \<open>Requests and the external collaborators\<close>

text \<open>
  An inbound request as Express presents it. \<open>req_originalUrl\<close> is the request
  target as received, path and query in one string; the router is the entry point of
  the gateway, so \<open>req.url\<close> is the same string. \<open>req_query\<close> is \<open>req.query\<close>, the
  object the query parser of Express made of the query string. Header names are the
  keys of \<open>req.headers\<close>. \<open>req_body\<close> lists the properties of the decoded body and is
  empty when there is none. The three route parameters are those of
  \<^verbatim>\<open>/:username/:apiName/*\<close>.
\<close>

record request =
  req_method :: string
  req_originalUrl :: string
  req_query :: "(string \<times> qvalue) list"
  req_headers :: "(string \<times> string) list"
  req_body :: "(string \<times> string) list"
  param_username :: string
  param_apiName :: string
  param_wildcard :: string

definition query_param :: "request \<Rightarrow> string \<Rightarrow> qvalue option" where
  "query_param req k = map_of (req_query req) k"

definition header :: "request \<Rightarrow> string \<Rightarrow> string option" where
  "header req k = map_of (req_headers req) k"

text \<open>\<open>(req as any).endpointConfig\<close>.\<close>

record endpointConfig =
  ec_id :: string
  ec_price_microstx :: microstx
  ec_developer_wallet :: string
  ec_original_url :: string

definition endpointConfig_of :: "endpoint_row \<Rightarrow> endpointConfig" where
  "endpointConfig_of endpoint =
     \<lparr>ec_id = row_id endpoint, ec_price_microstx = price_microstx endpoint,
      ec_developer_wallet = wallet_address endpoint, ec_original_url = original_url endpoint\<rparr>"

text \<open>The options handed to \<open>paymentMiddleware\<close>.\<close>

record mw_config =
  mw_amount :: string
  mw_payTo :: string
  mw_network :: string
  mw_facilitatorUrl :: string
  mw_description :: string

text \<open>Neither \<open>endpoint_name\<close> nor \<open>api_name\<close> is in the route's \<open>select\<close> list, so both
  defaults of the description apply. The amount is \<open>price_microstx.toString()\<close>.\<close>

definition mw_config_of :: "config \<Rightarrow> endpoint_row \<Rightarrow> mw_config" where
  "mw_config_of cfg endpoint =
     \<lparr>mw_amount = ToString (sint (price_microstx endpoint)),
      mw_payTo = wallet_address endpoint,
      mw_network = network_of cfg,
      mw_facilitatorUrl = facilitatorUrl_of cfg,
      mw_description = ''API endpoint - ZedKr API''\<rparr>"

text \<open>
  What the payment middleware of the library does with a request: it calls \<open>next\<close>,
  after which \<open>getPayment(req)\<close> gives the attached payment or nothing; or it answers
  itself through \<open>res.status(st).json(body)\<close>; or it throws.
\<close>

datatype mw_outcome = MwNext "payment option" | MwJson nat mw_body | MwThrows

text \<open>The \<open>payment-response\<close> header of the re-issued request's response: missing or
  empty, not decodable, or decoded to an object with optional \<open>payer\<close>, \<open>transaction\<close>
  and \<open>network\<close>.\<close>

datatype pr_header =
    PR_absent
  | PR_malformed
  | PR_data "string option" "string option" "string option"

text \<open>How \<open>api.get\<close> ends: a response; an error that carries a response; any other
  error, with its message.\<close>

datatype axios_outcome =
    AxiosResponse nat string pr_header
  | AxiosErrorResponse nat string
  | AxiosError string

record parsed_url =
  url_protocol :: string
  url_host :: string
  url_pathname :: string
  url_search :: string

text \<open>The request handed to the proxy for the origin.\<close>

record origin_request =
  o_target :: string
  o_path :: string
  o_method :: string
  o_headers :: "(string \<times> string) list"
  o_body :: "(string \<times> string) list option"

text \<open>How the proxy ends: the origin answers (status, body, elapsed milliseconds, and
  whether the headers of the outgoing response are already sent), or \<open>onError\<close> runs.\<close>

datatype upstream_outcome = ProxyRes nat string nat bool | ProxyErr

text \<open>The request that \<open>handleDirectPayment\<close> issues to the gateway itself.\<close>

record gateway_request =
  g_method :: string
  g_baseURL :: string
  g_timeout :: nat
  g_path :: string
  g_query :: "(string \<times> string) list"
  g_headers :: "(string \<times> string) list"
  g_body :: "(string \<times> string) list"

text \<open>What the URL parser of the platform reads from the request target: the path as
  the parser prints it, and the decoded pairs of \<open>searchParams\<close>.\<close>

record request_url =
  ru_pathname :: string
  ru_searchParams :: "(string \<times> string) list"

text \<open>
  Everything outside the repository that a request's handling depends on.
  \<open>URL_parse input base\<close> is the platform's \<open>new URL(input, base)\<close>: the URL, or the
  message of the \<open>TypeError\<close> it throws; \<open>parse_URL\<close> is \<open>new URL(input)\<close>.
  \<open>privateKeyToAccount key network\<close> gives the account's address, or the message of
  the error it throws; the key is whatever the request carried, a string or not.
  \<open>api_get\<close> is the payment-wrapped client; its second argument is the key of the
  account it was wrapped with. \<open>clock_elapsed\<close> is the time in milliseconds between
  the two readings of the clock in \<open>handleDirectPayment\<close>.
\<close>

record env =
  resolve_outcome :: db_outcome
  mat_fetch_outcome :: db_outcome
  mat_update_outcome :: db_outcome
  insert_outcome :: db_outcome
  update_outcome :: db_outcome
  paymentMw :: "mw_config \<Rightarrow> request \<Rightarrow> mw_outcome"
  privateKeyToAccount :: "qvalue \<Rightarrow> string \<Rightarrow> string + string"
  URL_parse :: "string \<Rightarrow> string \<Rightarrow> string + request_url"
  api_get :: "gateway_request \<Rightarrow> qvalue \<Rightarrow> axios_outcome"
  parse_URL :: "string \<Rightarrow> parsed_url option"
  JSON_byteLength :: "(string \<times> string) list \<Rightarrow> nat"
  upstream :: "origin_request \<Rightarrow> upstream_outcome"
  clock_elapsed :: nat

text \<open>
  What \<open>handleDirectPayment\<close> can catch: the \<open>TypeError\<close> of \<open>new URL\<close>, with its
  message and the input it was given, which the platform attaches to the error; an
  error of \<open>privateKeyToAccount\<close>, with its message; an error of the client, which
  carries the request it was for.
\<close>

datatype js_error =
    Invalid_URL string string
  | Library_error string
  | Request_failed gateway_request axios_outcome

section \<open>The monetized-URL materializer\<close>

datatype console_msg =
    Error_fetching_endpoint
  | Cannot_generate_monetized_url
  | Error_updating_monetized_url
  | Error_in_updateMonetizedUrlForEndpoint
  | Proxy_routing_error
  | Direct_payment_error js_error
  | Error_logging_API_call
  | Handle_proxied_request_error
  | Error_updating_API_call_log
  | Proxy_error

definition monetizedUrl :: "config \<Rightarrow> string \<Rightarrow> string \<Rightarrow> string \<Rightarrow> string" where
  "monetizedUrl cfg u a p = ZEDKR_DOMAIN cfg @ ''/'' @ u @ ''/'' @ a @ ''/'' @ p"

text \<open>
  First half of \<open>updateMonetizedUrlForEndpoint\<close>: the \<open>select\<close> by id and the three
  checks. The result is the URL to write, or \<open>None\<close> when the function returns before
  the update.
\<close>

definition mat_fetch ::
  "config \<Rightarrow> db_outcome \<Rightarrow> registry \<Rightarrow> string \<Rightarrow> thrown + (string option \<times> console_msg list)" where
  "mat_fetch cfg oc reg endpointId =
     (case oc of
        Rejects \<Rightarrow> Inl Thrown
      | Resolves_error \<Rightarrow> Inr (None, [Error_fetching_endpoint])
      | Resolves \<Rightarrow>
          (case single (filter (\<lambda>r. row_id r = endpointId) reg) of
             None \<Rightarrow> Inr (None, [Error_fetching_endpoint])
           | Some e \<Rightarrow>
               if truthy (monetized_url e) then Inr (None, [])
               else (case username e of
                       None \<Rightarrow> Inr (None, [Cannot_generate_monetized_url])
                     | Some u \<Rightarrow>
                         if u = [] \<or> api_name_slug e = [] \<or> endpoint_path e = []
                         then Inr (None, [Cannot_generate_monetized_url])
                         else Inr (Some (monetizedUrl cfg u (api_name_slug e) (endpoint_path e)),
                                   []))))"

text \<open>\<open>.update({ monetized_url }).eq('id', endpointId)\<close> on the table.\<close>

definition set_monetized_url :: "string \<Rightarrow> string \<Rightarrow> registry \<Rightarrow> registry" where
  "set_monetized_url endpointId url reg =
     map (\<lambda>r. if row_id r = endpointId then r\<lparr>monetized_url := Some url\<rparr> else r) reg"

text \<open>Second half: the update, whose error is logged.\<close>

definition mat_update ::
  "db_outcome \<Rightarrow> registry \<Rightarrow> string \<Rightarrow> string \<Rightarrow> thrown + (registry \<times> console_msg list)" where
  "mat_update oc reg endpointId url =
     (case oc of
        Rejects \<Rightarrow> Inl Thrown
      | Resolves_error \<Rightarrow> Inr (reg, [Error_updating_monetized_url])
      | Resolves \<Rightarrow> Inr (set_monetized_url endpointId url reg, []))"

text \<open>The body of the \<open>try\<close> block.\<close>

definition mat_body ::
  "config \<Rightarrow> db_outcome \<Rightarrow> db_outcome \<Rightarrow> registry \<Rightarrow> string \<Rightarrow>
     thrown + (registry \<times> console_msg list)" where
  "mat_body cfg oc_fetch oc_update reg endpointId =
     (case mat_fetch cfg oc_fetch reg endpointId of
        Inl t \<Rightarrow> Inl t
      | Inr (None, msgs) \<Rightarrow> Inr (reg, msgs)
      | Inr (Some url, msgs) \<Rightarrow>
          (case mat_update oc_update reg endpointId url of
             Inl t \<Rightarrow> Inl t
           | Inr (reg', msgs') \<Rightarrow> Inr (reg', msgs @ msgs')))"

text \<open>The whole function: whatever the body throws is caught and logged. It returns the
  registry as the call leaves it and what it wrote to the console.\<close>

definition updateMonetizedUrlForEndpoint ::
  "config \<Rightarrow> db_outcome \<Rightarrow> db_outcome \<Rightarrow> registry \<Rightarrow> string \<Rightarrow> registry \<times> console_msg list" where
  "updateMonetizedUrlForEndpoint cfg oc_fetch oc_update reg endpointId =
     (case mat_body cfg oc_fetch oc_update reg endpointId of
        Inl _ \<Rightarrow> (reg, [Error_in_updateMonetizedUrlForEndpoint])
      | Inr r \<Rightarrow> r)"

subsection \<open>Two invocations racing on one endpoint\<close>

text \<open>
  An invocation awaits twice, at the \<open>select\<close> and at the \<open>update\<close>, so another
  invocation can run between its two halves. \<open>Idle\<close>: not started; \<open>Planned url\<close>:
  past the checks, about to write \<open>url\<close>; \<open>Finished\<close>: returned.
\<close>

datatype racer = Idle | Planned string | Finished

fun racer_step ::
  "config \<Rightarrow> string \<Rightarrow> db_outcome \<Rightarrow> registry \<times> racer \<Rightarrow> registry \<times> racer" where
  "racer_step cfg eid oc (reg, Idle) =
     (case mat_fetch cfg oc reg eid of
        Inr (Some url, _) \<Rightarrow> (reg, Planned url)
      | _ \<Rightarrow> (reg, Finished))"
| "racer_step cfg eid oc (reg, Planned url) =
     (case mat_update oc reg eid url of
        Inr (reg', _) \<Rightarrow> (reg', Finished)
      | Inl _ \<Rightarrow> (reg, Finished))"
| "racer_step cfg eid oc (reg, Finished) = (reg, Finished)"

text \<open>A schedule says, step by step, which of the two invocations runs its next half
  (\<open>True\<close>: the first) and how its registry call ends.\<close>

fun run_schedule ::
  "config \<Rightarrow> string \<Rightarrow> (bool \<times> db_outcome) list \<Rightarrow> registry \<times> racer \<times> racer \<Rightarrow>
     registry \<times> racer \<times> racer" where
  "run_schedule cfg eid [] s = s"
| "run_schedule cfg eid ((first, oc) # sch) (reg, a, b) =
     (if first
      then (case racer_step cfg eid oc (reg, a) of
              (reg', a') \<Rightarrow> run_schedule cfg eid sch (reg', a', b))
      else (case racer_step cfg eid oc (reg, b) of
              (reg', b') \<Rightarrow> run_schedule cfg eid sch (reg', a, b')))"

definition race ::
  "config \<Rightarrow> string \<Rightarrow> (bool \<times> db_outcome) list \<Rightarrow> registry \<Rightarrow> registry \<times> racer \<times> racer" where
  "race cfg eid sch reg = run_schedule cfg eid sch (reg, Idle, Idle)"

definition fault_free :: "(bool \<times> db_outcome) list \<Rightarrow> bool" where
  "fault_free sch = list_all (\<lambda>(_, oc). oc = Resolves) sch"

text \<open>Both invocations have returned.\<close>

definition completed :: "registry \<times> racer \<times> racer \<Rightarrow> bool" where
  "completed s = (case s of (_, a, b) \<Rightarrow> a = Finished \<and> b = Finished)"

text \<open>The registry after one undisturbed, fault-free invocation.\<close>

definition written :: "config \<Rightarrow> string \<Rightarrow> registry \<Rightarrow> registry" where
  "written cfg eid reg0 = fst (updateMonetizedUrlForEndpoint cfg Resolves Resolves reg0 eid)"

section \<open>The call ledger\<close>

record call_record =
  endpoint_id :: string
  caller_wallet :: string
  tx_hash :: "string option"
  amount_paid :: microstx
  status_code :: "nat option"
  latency_ms :: "nat option"

text \<open>A write on \<open>api_calls\<close>: an insert, or
  \<open>update({status_code, latency_ms}).eq('tx_hash', key)\<close>.\<close>

datatype ledger_op = Insert call_record | Update "string option" nat nat




fun inserts :: "(ledger_op \<times> db_outcome) list \<Rightarrow> call_record list" where
  "inserts [] = []"
| "inserts ((Insert r, _) # ws) = r # inserts ws"
| "inserts ((Update _ _ _, _) # ws) = inserts ws"

fun updates :: "(ledger_op \<times> db_outcome) list \<Rightarrow> (string option \<times> nat \<times> nat) list" where
  "updates [] = []"
| "updates ((Insert _, _) # ws) = updates ws"
| "updates ((Update k st l, _) # ws) = (k, st, l) # updates ws"

section \<open>What handling a request produces\<close>

text \<open>
  The response sent to the caller, the ledger writes issued (each with how it ended),
  the request handed to the proxy for the origin, the request re-issued to the gateway,
  and the lines written to the console.
\<close>

record outcome =
  response :: http_response
  ledger :: "(ledger_op \<times> db_outcome) list"
  forwarded :: "origin_request option"
  reissued :: "gateway_request option"
  console :: "console_msg list"

definition reply :: "http_response \<Rightarrow> console_msg list \<Rightarrow> outcome" where
  "reply r msgs =
     \<lparr>response = r, ledger = [], forwarded = None, reissued = None, console = msgs\<rparr>"

section \<open>The programmatic payment path\<close>

text \<open>\<open>url.searchParams.delete('privateKey')\<close>.\<close>

definition delete_privateKey :: "(string \<times> string) list \<Rightarrow> (string \<times> string) list" where
  "delete_privateKey q = filter (\<lambda>kv. fst kv \<noteq> ''privateKey'') q"

text \<open>\<open>`http://${req.headers.host}`\<close>: a missing header prints as \<open>undefined\<close>.\<close>

definition request_base :: "request \<Rightarrow> string" where
  "request_base req =
     ''http://'' @ (case header req ''host'' of None \<Rightarrow> ''undefined'' | Some h \<Rightarrow> h)"

text \<open>
  \<open>api.get(requestPath)\<close> on the client created with the gateway's own domain as
  \<open>baseURL\<close>, where \<open>requestPath\<close> is \<open>url.pathname + url.search\<close> after the delete:
  a GET of the parsed path and of the remaining pairs, which \<open>url.search\<close> serialises,
  to which the handler passes no header and no body.
\<close>

definition direct_request :: "config \<Rightarrow> request_url \<Rightarrow> gateway_request" where
  "direct_request cfg u =
     \<lparr>g_method = ''GET'', g_baseURL = ZEDKR_DOMAIN cfg, g_timeout = 60000,
      g_path = ru_pathname u, g_query = delete_privateKey (ru_searchParams u),
      g_headers = [], g_body = []\<rparr>"

definition direct_payment_of :: "string \<Rightarrow> string \<Rightarrow> pr_header \<Rightarrow> payment" where
  "direct_payment_of payerAddress net h =
     (case h of
        PR_data p t n \<Rightarrow>
          \<lparr>payer = or_default p payerAddress, transaction = Some (or_default t ''''),
           network = or_default n net\<rparr>
      | _ \<Rightarrow> \<lparr>payer = payerAddress, transaction = Some '''', network = net\<rparr>)"

text \<open>The record \<open>handleDirectPayment\<close> inserts. Its latency is the time between two
  readings of the clock that follow each other with nothing awaited in between.\<close>

definition direct_record :: "endpointConfig \<Rightarrow> payment \<Rightarrow> nat \<Rightarrow> nat \<Rightarrow> call_record" where
  "direct_record ec p st elapsed =
     \<lparr>endpoint_id = ec_id ec, caller_wallet = payer p, tx_hash = transaction p,
      amount_paid = ec_price_microstx ec, status_code = Some st, latency_ms = Some elapsed\<rparr>"

definition direct_failure :: "string \<Rightarrow> http_response" where
  "direct_failure msg =
     error_response 500 (''Failed to process payment with private key: '' @ msg)"

text \<open>
  \<open>handleDirectPayment\<close>. The account is made first, then the URL is parsed from the
  request target as received by \<open>new URL(req.originalUrl, base)\<close>, whose \<open>TypeError\<close>
  carries that input, then the parameter is deleted and the request issued.
  Whatever is thrown on the way is printed to the console by the \<open>catch\<close>.
\<close>

definition handleDirectPayment ::
  "config \<Rightarrow> env \<Rightarrow> request \<Rightarrow> endpointConfig \<Rightarrow> qvalue \<Rightarrow> outcome" where
  "handleDirectPayment cfg env req ec privateKey =
     (case privateKeyToAccount env privateKey (network_of cfg) of
        Inl msg \<Rightarrow> reply (direct_failure msg) [Direct_payment_error (Library_error msg)]
      | Inr payerAddress \<Rightarrow>
          (case URL_parse env (req_originalUrl req) (request_base req) of
             Inl msg \<Rightarrow>
               reply (direct_failure msg)
                 [Direct_payment_error (Invalid_URL msg (req_originalUrl req))]
           | Inr u \<Rightarrow>
               (let g = direct_request cfg u in
                case api_get env g privateKey of
                  AxiosErrorResponse st d \<Rightarrow>
                    (reply \<lparr>status = st, body = Data d, payment_response = None\<rparr>
                       [Direct_payment_error (Request_failed g (AxiosErrorResponse st d))])
                    \<lparr>reissued := Some g\<rparr>
                | AxiosError msg \<Rightarrow>
                    (reply (direct_failure msg)
                       [Direct_payment_error (Request_failed g (AxiosError msg))])
                    \<lparr>reissued := Some g\<rparr>
                | AxiosResponse st d h \<Rightarrow>
                    (let p = direct_payment_of payerAddress (network_of cfg) h;
                         logged = truthy (transaction p)
                     in \<lparr>response = \<lparr>status = st, body = Data d, payment_response = None\<rparr>,
                         ledger = (if logged
                                   then [(Insert (direct_record ec p st (clock_elapsed env)),
                                          insert_outcome env)]
                                   else []),
                         forwarded = None,
                         reissued = Some g,
                         console = (if logged \<and> insert_outcome env = Rejects
                                    then [Error_logging_API_call] else [])\<rparr>))))"

section \<open>The forwarding proxy\<close>

definition to_lower :: "string \<Rightarrow> string" where
  "to_lower s =
     map (\<lambda>c. let n = (of_char c :: nat) in if 65 \<le> n \<and> n \<le> 90 then char_of (n + 32) else c) s"

text \<open>The headers \<open>onProxyReq\<close> sets on the outgoing request: every inbound header but
  \<open>host\<close> whose value is truthy, then the two body headers when a body is written.\<close>

definition onProxyReq_headers :: "env \<Rightarrow> request \<Rightarrow> (string \<times> string) list" where
  "onProxyReq_headers env req =
     filter (\<lambda>kv. to_lower (fst kv) \<noteq> ''host'' \<and> snd kv \<noteq> []) (req_headers req) @
     (if req_body req \<noteq> []
      then [(''Content-Type'', ''application/json''),
            (''Content-Length'', string_of_nat (JSON_byteLength env (req_body req)))]
      else [])"

text \<open>
  The replacement text of \<open>String.prototype.replace\<close> for a pattern without groups
  that matched the whole of \<open>matched\<close>: \<open>$$\<close> gives a dollar sign, \<open>$&\<close> the matched
  text, and the texts before and after the match, which \<open>$\<close> with a backtick or an
  apostrophe stand for, are empty; a dollar sign before anything else stays.
\<close>

fun expand_replacement :: "string \<Rightarrow> string \<Rightarrow> string" where
  "expand_replacement matched [] = []"
| "expand_replacement matched [c] = [c]"
| "expand_replacement matched (c # d # r) =
     (if c = CHR ''$'' \<and> d = CHR ''$'' then CHR ''$'' # expand_replacement matched r
      else if c = CHR ''$'' \<and> d = CHR ''&'' then matched @ expand_replacement matched r
      else if c = CHR ''$'' \<and> (d = CHR 0x60 \<or> d = CHR 0x27) then expand_replacement matched r
      else c # expand_replacement matched (d # r))"

text \<open>
  \<open>pathRewrite\<close> with the one rule \<^verbatim>\<open>^/.*\<close>: a URL that begins with a slash is matched
  as a whole (a request target has no line break) and replaced; any other is left as
  it is.
\<close>

definition pathRewrite :: "string \<Rightarrow> string \<Rightarrow> string" where
  "pathRewrite url replacement =
     (case url of
        [] \<Rightarrow> url
      | c # _ \<Rightarrow> if c = CHR ''/'' then expand_replacement url replacement else url)"

text \<open>The target is the origin's protocol and host; the path is the inbound URL
  rewritten with the origin URL's own path and query as the replacement.\<close>

definition origin_request_of :: "env \<Rightarrow> request \<Rightarrow> parsed_url \<Rightarrow> origin_request" where
  "origin_request_of env req u =
     \<lparr>o_target = url_protocol u @ ''//'' @ url_host u,
      o_path = pathRewrite (req_originalUrl req) (url_pathname u @ url_search u),
      o_method = req_method req,
      o_headers = onProxyReq_headers env req,
      o_body = (if req_body req \<noteq> [] then Some (req_body req) else None)\<rparr>"

text \<open>The record inserted before the proxy runs.\<close>

definition admission_record :: "endpointConfig \<Rightarrow> payment \<Rightarrow> call_record" where
  "admission_record ec p =
     \<lparr>endpoint_id = ec_id ec, caller_wallet = payer p, tx_hash = transaction p,
      amount_paid = ec_price_microstx ec, status_code = None, latency_ms = None\<rparr>"

text \<open>
  \<open>handleProxiedRequest\<close>; \<open>pay\<close> is \<open>getPayment(req)\<close>. The insert is awaited inside the
  \<open>try\<close> block, so an insert that rejects ends in the \<open>catch\<close>; its resolved value is not
  looked at. The update in \<open>onProxyRes\<close> is not awaited and carries its own \<open>catch\<close>.
\<close>

definition handleProxiedRequest ::
  "env \<Rightarrow> request \<Rightarrow> endpointConfig \<Rightarrow> payment option \<Rightarrow> outcome" where
  "handleProxiedRequest env req ec pay =
     (let ins = (case pay of
                   Some p \<Rightarrow> [(Insert (admission_record ec p), insert_outcome env)]
                 | None \<Rightarrow> [])
      in if pay \<noteq> None \<and> insert_outcome env = Rejects
         then (reply (error_response 500 ''Internal server error'')
                 [Handle_proxied_request_error])\<lparr>ledger := ins\<rparr>
         else (case parse_URL env (ec_original_url ec) of
                 None \<Rightarrow> (reply (error_response 400 ''Invalid target URL'') [])\<lparr>ledger := ins\<rparr>
               | Some u \<Rightarrow>
                   (let fr = origin_request_of env req u in
                    case upstream env fr of
                      ProxyErr \<Rightarrow>
                        (reply (error_response 502 ''Failed to proxy request to target API'')
                           [Proxy_error])\<lparr>ledger := ins, forwarded := Some fr\<rparr>
                    | ProxyRes st d latency headersSent \<Rightarrow>
                        \<lparr>response = \<lparr>status = st, body = Data d,
                                     payment_response = (if headersSent then None else pay)\<rparr>,
                         ledger = ins @ (case pay of
                                           Some p \<Rightarrow> [(Update (transaction p) st latency,
                                                        update_outcome env)]
                                         | None \<Rightarrow> []),
                         forwarded = Some fr,
                         reissued = None,
                         console = (if pay \<noteq> None \<and> update_outcome env = Rejects
                                    then [Error_updating_API_call_log] else [])\<rparr>)))"

section \<open>The route\<close>

text \<open>\<open>req.query.privateKey || req.headers['x-private-key']\<close>, when truthy.\<close>

definition direct_key :: "request \<Rightarrow> qvalue option" where
  "direct_key req =
     (let q = query_param req ''privateKey''
      in if q_truthy q then q
         else (case header req ''x-private-key'' of
                 None \<Rightarrow> None
               | Some h \<Rightarrow> if h = [] then None else Some (QStr h)))"

definition isBrowserRequest :: "request \<Rightarrow> bool" where
  "isBrowserRequest req =
     (case header req ''accept'' of None \<Rightarrow> False | Some a \<Rightarrow> str_includes a ''text/html'')"

definition hasPaymentSignature :: "request \<Rightarrow> bool" where
  "hasPaymentSignature req =
     (truthy (header req ''payment-signature'') \<or>
      q_truthy (query_param req ''paymentSignature''))"

text \<open>
  The handler of \<^verbatim>\<open>router.all('/:username/:apiName/*')\<close>. It returns the registry as
  the request leaves it and the outcome of the request. The messages of the materializer
  come first on the console.
\<close>

definition after_gate ::
  "config \<Rightarrow> env \<Rightarrow> request \<Rightarrow> endpoint_row \<Rightarrow> outcome" where
  "after_gate cfg env req endpoint =
     (let ec = endpointConfig_of endpoint in
      case direct_key req of
        Some privateKey \<Rightarrow> handleDirectPayment cfg env req ec privateKey
      | None \<Rightarrow>
          (case paymentMw env (mw_config_of cfg endpoint) req of
             MwThrows \<Rightarrow>
               reply (error_response 500 ''Internal server error'') [Proxy_routing_error]
           | MwJson st b \<Rightarrow>
               reply (res_json (req_originalUrl req) (price_microstx endpoint)
                        (wallet_address endpoint) (network_of cfg)
                        (isBrowserRequest req) (hasPaymentSignature req) st b) []
           | MwNext pay \<Rightarrow> handleProxiedRequest env req ec pay))"

definition route :: "config \<Rightarrow> env \<Rightarrow> registry \<Rightarrow> request \<Rightarrow> registry \<times> outcome" where
  "route cfg env reg req =
     (case resolve_endpoint (resolve_outcome env) reg
             (param_username req) (param_apiName req) (param_wildcard req) of
        Inl _ \<Rightarrow> (reg, reply (error_response 500 ''Internal server error'') [Proxy_routing_error])
      | Inr None \<Rightarrow> (reg, reply (error_response 404 ''Endpoint not found'') [])
      | Inr (Some endpoint) \<Rightarrow>
          (let (reg', msgs) =
                 (if \<not> truthy (monetized_url endpoint)
                  then updateMonetizedUrlForEndpoint cfg (mat_fetch_outcome env)
                         (mat_update_outcome env) reg (row_id endpoint)
                  else (reg, []));
               out = after_gate cfg env req endpoint
           in (reg', out\<lparr>console := msgs @ console out\<rparr>)))"

section \<open>Invariant of the race\<close>

text \<open>A planned write is the one the checks allow on the initial registry; the
  registry is the initial one or the written one; once an invocation has returned
  without a fault the registry is the written one.\<close>

definition racer_ok :: "config \<Rightarrow> string \<Rightarrow> registry \<Rightarrow> racer \<Rightarrow> bool" where
  "racer_ok cfg eid reg0 r =
     (case r of Planned u \<Rightarrow> mat_fetch cfg Resolves reg0 eid = Inr (Some u, []) | _ \<Rightarrow> True)"

definition race_inv :: "config \<Rightarrow> string \<Rightarrow> registry \<Rightarrow> registry \<times> racer \<times> racer \<Rightarrow> bool" where
  "race_inv cfg eid reg0 s =
     (case s of (reg, a, b) \<Rightarrow>
        (reg = reg0 \<or> reg = written cfg eid reg0) \<and>
        racer_ok cfg eid reg0 a \<and> racer_ok cfg eid reg0 b)"

definition race_fin :: "config \<Rightarrow> string \<Rightarrow> registry \<Rightarrow> registry \<times> racer \<times> racer \<Rightarrow> bool" where
  "race_fin cfg eid reg0 s =
     (case s of (reg, a, b) \<Rightarrow> (a = Finished \<or> b = Finished) \<longrightarrow> reg = written cfg eid reg0)"

section \<open>Example values\<close>

definition example_cfg :: config where
  "example_cfg = \<lparr>env_NETWORK = None, env_FACILITATOR_URL = None, env_ZEDKR_DOMAIN = None\<rparr>"

definition example_row :: endpoint_row where
  "example_row =
     \<lparr>row_id = ''e1'', endpoint_path = ''today'',
      original_url = ''https://origin.example/v1/weather?units=c'',
      price_microstx = 1500000, active = True, monetized_url = None,
      api_name_slug = ''weather'', username = Some ''alice'', wallet_address = ''SP1DEV''\<rparr>"

definition example_payment :: payment where
  "example_payment = \<lparr>payer = ''SP2PAYER'', transaction = Some ''0xabc'', network = ''stacks:1''\<rparr>"

text \<open>A stand-in for the platform's URL parser on the two request targets of the
  examples; it fails on the base that an empty \<open>Host\<close> header gives.\<close>

definition example_URL_parse :: "string \<Rightarrow> string \<Rightarrow> string + request_url" where
  "example_URL_parse input base =
     (if base = ''http://'' then Inl ''Invalid URL''
      else if input = ''/alice/weather/today?units=c&privateKey=k1''
      then Inr \<lparr>ru_pathname = ''/alice/weather/today'',
                 ru_searchParams = [(''units'', ''c''), (''privateKey'', ''k1'')]\<rparr>
      else if input = ''/alice/weather/today''
      then Inr \<lparr>ru_pathname = ''/alice/weather/today'', ru_searchParams = []\<rparr>
      else Inl ''Invalid URL'')"

text \<open>A stand-in for the gateway behind the client: it serves a GET without secret,
  without header and without body, and nothing else.\<close>

definition example_api_get :: "gateway_request \<Rightarrow> qvalue \<Rightarrow> axios_outcome" where
  "example_api_get g k =
     (if g_method g = ''GET'' \<and> g_headers g = [] \<and> g_body g = [] \<and>
         g_path g = ''/alice/weather/today'' \<and> g_query g = [(''units'', ''c'')]
      then AxiosResponse 200 ''{}''
             (PR_data (Some ''SP2PAYER'') (Some ''0xabc'') (Some ''stacks:1''))
      else AxiosError ''unexpected request'')"

definition example_env :: env where
  "example_env =
     \<lparr>resolve_outcome = Resolves, mat_fetch_outcome = Resolves, mat_update_outcome = Resolves,
      insert_outcome = Resolves, update_outcome = Resolves,
      paymentMw = (\<lambda>c r. MwNext (Some example_payment)),
      privateKeyToAccount = (\<lambda>k n. Inr ''SP2PAYER''),
      URL_parse = example_URL_parse,
      api_get = example_api_get,
      parse_URL = (\<lambda>s. if s = ''https://origin.example/v1/weather?units=c''
                        then Some \<lparr>url_protocol = ''https:'', url_host = ''origin.example'',
                                   url_pathname = ''/v1/weather'', url_search = ''?units=c''\<rparr>
                        else None),
      JSON_byteLength = (\<lambda>b. 2),
      upstream = (\<lambda>fr. ProxyRes 200 ''{}'' 35 False),
      clock_elapsed = 0\<rparr>"

definition example_request :: request where
  "example_request =
     \<lparr>req_method = ''GET'', req_originalUrl = ''/alice/weather/today'', req_query = [],
      req_headers = [(''host'', ''zedkr.up.railway.app''), (''payment-signature'', ''c2ln'')],
      req_body = [],
      param_username = ''alice'', param_apiName = ''weather'', param_wildcard = ''today''\<rparr>"

definition example_direct_request :: request where
  "example_direct_request =
     \<lparr>req_method = ''POST'',
      req_originalUrl = ''/alice/weather/today?units=c&privateKey=k1'',
      req_query = [(''units'', QStr ''c''), (''privateKey'', QStr ''k1'')],
      req_headers = [(''host'', ''zedkr.up.railway.app''), (''x-private-key'', ''k1'')],
      req_body = [(''city'', ''Oslo'')],
      param_username = ''alice'', param_apiName = ''weather'', param_wildcard = ''today''\<rparr>"

text \<open>The same request with an empty \<open>Host\<close> header.\<close>

definition example_no_host_request :: request where
  "example_no_host_request =
     example_direct_request\<lparr>req_headers := [(''host'', []), (''x-private-key'', ''k1'')]\<rparr>"

section \<open>Properties of the price rendering\<close>

lemmas price_eval =
  priceSTX_def toFixed6_def divide_1000000_def scale_up.simps round_half_even_def
  round_half_up_def six_digits_def string_of_nat.simps digit_char_def all_zeros_def

lemmas base_eval =
  truthy_def q_truthy_def or_default_def single_def ZEDKR_DOMAIN_def network_of_def
  facilitatorUrl_of_def example_cfg_def example_row_def example_env_def example_request_def
  example_direct_request_def example_no_host_request_def example_payment_def
  example_URL_parse_def example_api_get_def

subsection \<open>The double quotient is exact to six decimals below \<open>2 ^ 33\<close> units\<close>

lemma scale_up_props:
  "0 < a \<Longrightarrow> scale_up a w b = (a', w') \<Longrightarrow>
   \<exists>k. a' = a * 2 ^ k \<and> w' = w * 2 ^ k \<and> b \<le> a'"
proof (induction a w b arbitrary: a' w' rule: scale_up.induct)
  case (1 a w b)
  show ?case
  proof (cases "b \<le> a")
    case True
    with "1.prems" have "a' = a" "w' = w" by (simp_all add: scale_up.simps)
    with True show ?thesis by (intro exI [of _ 0]) simp
  next
    case False
    with "1.prems" have s: "scale_up (2 * a) (2 * w) b = (a', w')"
      by (subst (asm) scale_up.simps) simp
    from "1.prems" False have "\<not> (a = 0 \<or> b \<le> a)" by simp
    from "1.IH" [OF this _ s] "1.prems"
    obtain k where "a' = 2 * a * 2 ^ k" "w' = 2 * w * 2 ^ k" "b \<le> a'" by auto
    then show ?thesis by (intro exI [of _ "Suc k"]) simp
  qed
qed

lemma round_half_up_above:
  assumes "2 * t < w"
  shows "round_half_up (n * w + t) w = n"
proof -
  from assms have t: "t < w" by simp
  then have "(n * w + t) div w = n" "(n * w + t) mod w = t" by simp_all
  with assms show ?thesis by (simp add: round_half_up_def)
qed

lemma round_half_up_below:
  assumes "0 < r" "2 * r \<le> w" "0 < n"
  shows "round_half_up (n * w - r) w = n"
proof -
  from assms obtain n' where n: "n = Suc n'" by (cases n) auto
  define t where "t = w - r"
  from assms have t: "t < w" "w \<le> 2 * t" by (simp_all add: t_def)
  from assms have eq: "n * w - r = n' * w + t" by (simp add: n t_def)
  from t have "(n' * w + t) div w = n'" "(n' * w + t) mod w = t" by simp_all
  with t have "round_half_up (n' * w + t) w = Suc n'" by (simp add: round_half_up_def)
  moreover have "round_half_up (n * w - r) w = round_half_up (n' * w + t) w"
    by (simp only: eq)
  ultimately show ?thesis by (simp only: n)
qed

lemma round_trip:
  assumes n: "0 < n" and d: "d < w" "0 < d"
  shows "round_half_up (round_half_even (n * w) d * d) w = n"
proof -
  define q where "q = n * w div d"
  define r where "r = n * w mod d"
  have a: "n * w = q * d + r" by (simp add: q_def r_def)
  have r: "r < d" using d by (simp add: r_def)
  have m: "round_half_even (n * w) d = (if d < 2 * r \<or> (2 * r = d \<and> odd q) then q + 1 else q)"
    by (simp add: round_half_even_def q_def r_def Let_def)
  show ?thesis
  proof (cases "d < 2 * r \<or> (2 * r = d \<and> odd q)")
    case True
    have "(q + 1) * d = n * w + (d - r)" using r a by (simp add: algebra_simps)
    moreover have "2 * (d - r) < w" using True d r by auto
    ultimately show ?thesis using round_half_up_above [of "d - r" w n] True by (simp only: m if_True)
  next
    case False
    from False have le: "2 * r \<le> d" by auto
    have qd: "q * d = n * w - r" using a by simp
    show ?thesis
    proof (cases "r = 0")
      case True
      then have "q * d = n * w + 0" using qd by simp
      moreover have "2 * 0 < w" using d by simp
      ultimately show ?thesis using round_half_up_above [of 0 w n] False by (simp only: m if_False)
    next
      case r0: False
      then have "0 < r" by simp
      moreover have "2 * r \<le> w" using le d by simp
      ultimately show ?thesis using round_half_up_below [of r w n] n False
        by (simp only: m if_False qd)
    qed
  qed
qed

lemma quotient_exact:
  assumes "n < 8589934592000000"
  shows "(case scale_up n 1 4503599627370496000000 of
            (a, w) \<Rightarrow> round_half_up (round_half_even a 1000000 * 1000000) w) = n"
proof (cases "n = 0")
  case True
  then show ?thesis by (simp add: scale_up.simps round_half_even_def round_half_up_def)
next
  case False
  then have n: "0 < n" by simp
  obtain a w where s: "scale_up n 1 4503599627370496000000 = (a, w)"
    by (cases "scale_up n 1 4503599627370496000000")
  from scale_up_props [OF n s] obtain k where a: "a = n * 2 ^ k" and w: "w = 2 ^ k"
    and b: "4503599627370496000000 \<le> a" by auto
  have "(2::nat) ^ 19 < 2 ^ k"
  proof (rule ccontr)
    assume "\<not> (2::nat) ^ 19 < 2 ^ k"
    then have "(2::nat) ^ k \<le> 524288" by simp
    then have "n * 2 ^ k \<le> n * 524288" by simp
    with assms a b show False by simp
  qed
  then have "19 < k" by (simp only: power_strict_increasing_iff)
  then have "20 \<le> k" by simp
  then have "(2::nat) ^ 20 \<le> 2 ^ k" by (simp only: power_increasing_iff)
  then have "1000000 < w" by (simp add: w)
  from round_trip [OF n this] show ?thesis unfolding s by (simp add: a w)
qed

subsection \<open>What the regular expression removes\<close>

lemma digit_char_not_point: "d < 10 \<Longrightarrow> digit_char d \<noteq> CHR ''.''"
proof -
  assume "d < 10"
  then have "d \<in> {0,1,2,3,4,5,6,7,8,9}" by auto
  then show ?thesis by (auto simp: digit_char_def)
qed

lemma string_of_nat_no_point: "CHR ''.'' \<notin> set (string_of_nat n)"
proof (induction n rule: string_of_nat.induct)
  case (1 n)
  show ?case
  proof (cases "n < 10")
    case True
    then show ?thesis
      using digit_char_not_point [of n] by (subst string_of_nat.simps) auto
  next
    case False
    have "n mod 10 < 10" by simp
    from digit_char_not_point [OF this] 1 False show ?thesis
      by (subst string_of_nat.simps) auto
  qed
qed

lemma six_digits_no_point: "CHR ''.'' \<notin> set (six_digits r)"
proof -
  have h: "digit_char (k mod 10) \<noteq> CHR ''.''" for k
    by (rule digit_char_not_point) simp
  show ?thesis unfolding six_digits_def by (simp add: h h [symmetric])
qed

lemma all_zeros_point: "CHR ''.'' \<in> set s \<Longrightarrow> \<not> all_zeros s"
  by (auto simp: all_zeros_def list_all_iff)

lemma strip_zeros_zeros: "list_all (\<lambda>c. c = CHR ''0'') z \<Longrightarrow> strip_zeros z = []"
  by (cases z) (simp_all add: all_zeros_def)

lemma strip_zeros_whole:
  assumes "CHR ''.'' \<notin> set s" and "all_zeros z"
  shows "strip_zeros (s @ CHR ''.'' # z) = s"
  using assms(1)
proof (induction s)
  case Nil
  with assms(2) show ?case by simp
next
  case (Cons c s)
  then have "c \<noteq> CHR ''.''" by auto
  moreover have "\<not> all_zeros (c # s @ CHR ''.'' # z)"
    by (rule all_zeros_point) simp
  ultimately show ?case using Cons by simp
qed

lemma strip_zeros_keep:
  assumes "a \<noteq> []" "last a \<noteq> CHR ''0''" "last a \<noteq> CHR ''.''"
    and z: "list_all (\<lambda>c. c = CHR ''0'') z"
  shows "strip_zeros (a @ z) = a"
  using assms(1-3)
proof (induction a)
  case Nil
  then show ?case by simp
next
  case (Cons c a)
  show ?case
  proof (cases "a = []")
    case True
    with Cons.prems have "c \<noteq> CHR ''0''" "c \<noteq> CHR ''.''" by simp_all
    with True z show ?thesis by (simp add: all_zeros_def strip_zeros_zeros)
  next
    case False
    with Cons.prems have l: "last a \<noteq> CHR ''0''" "last a \<noteq> CHR ''.''" by simp_all
    from False have "last a \<in> set (a @ z)" by simp
    with l have nz: "\<not> list_all (\<lambda>c. c = CHR ''0'') (a @ z)"
      by (auto simp: list_all_iff)
    then have "\<not> matches_here (c # a @ z)" by (simp add: all_zeros_def)
    with Cons.IH [OF False l] show ?thesis by simp
  qed
qed

lemma trim_split:
  fixes f :: string
  defines "g \<equiv> rev (dropWhile (\<lambda>c. c = CHR ''0'') (rev f))"
      and "z \<equiv> rev (takeWhile (\<lambda>c. c = CHR ''0'') (rev f))"
  shows "f = g @ z" and "list_all (\<lambda>c. c = CHR ''0'') z"
    and "g \<noteq> [] \<Longrightarrow> last g \<noteq> CHR ''0''"
proof -
  have "rev f = takeWhile (\<lambda>c. c = CHR ''0'') (rev f) @ dropWhile (\<lambda>c. c = CHR ''0'') (rev f)"
    by simp
  then have "rev (rev f) = g @ z" unfolding g_def z_def by (metis rev_append)
  then show "f = g @ z" by simp
  show "list_all (\<lambda>c. c = CHR ''0'') z"
    unfolding z_def list_all_iff using set_takeWhileD by fastforce
  assume "g \<noteq> []"
  then have ne: "dropWhile (\<lambda>c. c = CHR ''0'') (rev f) \<noteq> []" by (simp add: g_def)
  then have "hd (dropWhile (\<lambda>c. c = CHR ''0'') (rev f)) \<noteq> CHR ''0''"
    using hd_dropWhile [OF ne] by simp
  with ne show "last g \<noteq> CHR ''0''" by (simp add: g_def last_rev)
qed

lemma strip_zeros_decimal:
  assumes "CHR ''.'' \<notin> set s"
  shows "strip_zeros (s @ ''.'' @ six_digits r) =
         s @ (let f = rev (dropWhile (\<lambda>c. c = CHR ''0'') (rev (six_digits r)))
              in if f = [] then [] else ''.'' @ f)"
proof -
  define g where "g = rev (dropWhile (\<lambda>c. c = CHR ''0'') (rev (six_digits r)))"
  define z where "z = rev (takeWhile (\<lambda>c. c = CHR ''0'') (rev (six_digits r)))"
  note sp = trim_split [of "six_digits r", folded g_def z_def]
  have rhs: "(let f = rev (dropWhile (\<lambda>c. c = CHR ''0'') (rev (six_digits r)))
              in if f = [] then [] else ''.'' @ f) = (if g = [] then [] else ''.'' @ g)"
    by (simp add: g_def)
  show ?thesis
  proof (cases "g = []")
    case True
    with sp(1) have f: "six_digits r = z" by simp
    then have "z \<noteq> []" by (auto simp: six_digits_def)
    with sp(2) have "all_zeros z" by (simp add: all_zeros_def)
    from strip_zeros_whole [OF assms this]
    have "strip_zeros (s @ ''.'' @ six_digits r) = s" by (simp only: f append_Cons append_Nil)
    with True show ?thesis by (simp only: rhs) simp
  next
    case False
    let ?a = "s @ ''.'' @ g"
    from False have ne: "?a \<noteq> []" and la: "last ?a = last g" by simp_all
    from False sp(3) have l0: "last g \<noteq> CHR ''0''" by simp
    from False have "last g \<in> set g" by simp
    with sp(1) have "last g \<in> set (six_digits r)" by simp
    with six_digits_no_point [of r] have lp: "last g \<noteq> CHR ''.''" by auto
    from l0 lp la have "last ?a \<noteq> CHR ''0''" "last ?a \<noteq> CHR ''.''" by simp_all
    from strip_zeros_keep [OF ne this sp(2)]
    have "strip_zeros (?a @ z) = ?a" .
    moreover have "s @ ''.'' @ six_digits r = ?a @ z" using sp(1) by simp
    ultimately have "strip_zeros (s @ ''.'' @ six_digits r) = s @ ''.'' @ g" by (simp only:)
    with False show ?thesis by (simp only: rhs) simp
  qed
qed

lemma toFixed6_exact:
  assumes "\<bar>i\<bar> < 8589934592000000"
  shows "toFixed6 (divide_1000000 i) =
           (if i < 0 then ''-'' else []) @ string_of_nat (nat \<bar>i\<bar> div 1000000) @ ''.'' @
           six_digits (nat \<bar>i\<bar> mod 1000000)"
proof -
  define m where "m = nat \<bar>i\<bar>"
  obtain a w where s: "scale_up m 1 4503599627370496000000 = (a, w)"
    by (cases "scale_up m 1 4503599627370496000000")
  from assms have "m < 8589934592000000" by (simp add: m_def)
  from quotient_exact [OF this]
  have q: "round_half_up (round_half_even a 1000000 * 1000000) w = m"
    unfolding s by simp
  show ?thesis
    unfolding toFixed6_def divide_1000000_def m_def [symmetric] s
    by (simp add: q)
qed

lemma priceSTX_exact:
  assumes "\<bar>sint p\<bar> < 8589934592000000"
  shows "priceSTX p = spec_decimal (sint p)"
proof -
  let ?s = "(if sint p < 0 then ''-'' else []) @ string_of_nat (nat \<bar>sint p\<bar> div 1000000)"
  have "CHR ''.'' \<notin> set ?s" using string_of_nat_no_point by simp
  from strip_zeros_decimal [OF this, of "nat \<bar>sint p\<bar> mod 1000000"] toFixed6_exact [OF assms]
  show ?thesis by (simp add: priceSTX_def spec_decimal_def Let_def del: strip_zeros.simps)
qed

text \<open>
  C2. For every price of magnitude below 8,589,934,592,000,000 micro-units the price
  shown in a payment-requirement response is the price divided by 1,000,000, printed as
  a decimal with the trailing zeros removed; 1,500,000 gives "1.5", 1,000,000 gives
  "1" and 1 gives "0.000001"; and a 402 body sent to a non-interactive client (or to
  one that already carries a payment signature) gets that string as \<open>amountSTX\<close> in
  every entry of its \<open>accepts\<close> array.
\<close>

theorem price_rendering:
  "(\<bar>sint p\<bar> < 8589934592000000 \<longrightarrow> priceSTX p = spec_decimal (sint p)) \<and>
   priceSTX 1500000 = ''1.5'' \<and> priceSTX 1000000 = ''1'' \<and> priceSTX 1 = ''0.000001'' \<and>
   (\<not> (browser \<and> \<not> has_sig) \<longrightarrow>
      res_json url price wallet net browser has_sig 402 b =
        \<lparr>status = 402,
         body = Json (b\<lparr>accepts :=
                  map_option (map (\<lambda>a. a\<lparr>amountSTX := Some (priceSTX price)\<rparr>)) (accepts b)\<rparr>),
         payment_response = None\<rparr>)"
proof -
  have a: "priceSTX 1500000 = ''1.5''" by (simp add: price_eval)
  have b: "priceSTX 1000000 = ''1''" by (simp add: price_eval)
  have c: "priceSTX 1 = ''0.000001''" by (simp add: price_eval)
  have d: "add_amountSTX s b =
             b\<lparr>accepts := map_option (map (\<lambda>a. a\<lparr>amountSTX := Some s\<rparr>)) (accepts b)\<rparr>" for s
    by (cases "accepts b") (simp_all add: add_amountSTX_def)
  show ?thesis using a b c priceSTX_exact [of p] by (auto simp: res_json_def d)
qed

theorem price_rendering_witness:
  "priceSTX 1234560 = ''1.23456'' \<and>
   res_json ''/alice/weather/today'' 1500000 ''SP1'' ''testnet'' False False 402
     \<lparr>accepts = Some [\<lparr>acc_amount = Some ''1500000'', acc_network = Some ''stacks:1'',
                        acc_other = [], amountSTX = None\<rparr>],
      mw_other = []\<rparr>
   = \<lparr>status = 402,
      body = Json \<lparr>accepts = Some [\<lparr>acc_amount = Some ''1500000'',
                                     acc_network = Some ''stacks:1'',
                                     acc_other = [], amountSTX = Some ''1.5''\<rparr>],
                   mw_other = []\<rparr>,
      payment_response = None\<rparr>"
  using price_rendering [where p = 1234560 and browser = False and has_sig = False
      and url = "''/alice/weather/today''" and price = 1500000 and wallet = "''SP1''"
      and net = "''testnet''"
      and b = "\<lparr>accepts = Some [\<lparr>acc_amount = Some ''1500000'', acc_network = Some ''stacks:1'',
                        acc_other = [], amountSTX = None\<rparr>], mw_other = []\<rparr>"]
  by (simp add: spec_decimal_def six_digits_def string_of_nat.simps digit_char_def)

text \<open>
  Above that magnitude the double quotient no longer determines the sixth decimal:
  8,589,934,592,000,001 micro-units are shown as 8589934592.000002.
\<close>

theorem price_rendering_counterexample:
  "priceSTX 8589934592000001 = ''8589934592.000002'' \<and>
   spec_decimal (sint (8589934592000001 :: microstx)) = ''8589934592.000001''"
  by (simp add: price_eval spec_decimal_def)

section \<open>Properties of the materializer\<close>

lemma monetizedUrl_nonempty: "monetizedUrl cfg u a p \<noteq> []"
  by (simp add: monetizedUrl_def)

lemma filter_set_monetized_url:
  "filter (\<lambda>r. row_id r = eid) (set_monetized_url eid url reg) =
   map (\<lambda>r. r\<lparr>monetized_url := Some url\<rparr>) (filter (\<lambda>r. row_id r = eid) reg)"
  by (induction reg) (simp_all add: set_monetized_url_def)

lemma set_monetized_url_idem:
  "set_monetized_url eid url (set_monetized_url eid url reg) = set_monetized_url eid url reg"
  by (induction reg) (simp_all add: set_monetized_url_def)

lemma single_map: "single (map f xs) = map_option f (single xs)"
  by (cases xs rule: list.exhaust; cases "tl xs") (auto simp: single_def split: list.splits)

lemma mat_fetch_Some:
  assumes "mat_fetch cfg oc reg eid = Inr (Some url, msgs)"
  shows "oc = Resolves \<and> msgs = [] \<and> url \<noteq> []"
  using assms
  by (auto simp: mat_fetch_def monetizedUrl_nonempty split: db_outcome.splits option.splits if_splits)

lemma mat_fetch_after_write:
  assumes "mat_fetch cfg Resolves reg eid = Inr (Some url, msgs)"
  shows "mat_fetch cfg Resolves (set_monetized_url eid url reg) eid = Inr (None, [])"
  using assms mat_fetch_Some [OF assms]
  by (auto simp: mat_fetch_def filter_set_monetized_url single_map truthy_def
           split: option.splits if_splits)

lemma written_Some:
  assumes "mat_fetch cfg Resolves reg eid = Inr (Some url, msgs)"
  shows "written cfg eid reg = set_monetized_url eid url reg"
  using assms
  by (simp add: written_def updateMonetizedUrlForEndpoint_def mat_body_def mat_update_def)

lemma written_None:
  assumes "mat_fetch cfg Resolves reg eid = Inr (None, msgs)"
  shows "written cfg eid reg = reg"
  using assms
  by (simp add: written_def updateMonetizedUrlForEndpoint_def mat_body_def)

lemma mat_fetch_Resolves_Inr: "\<exists>r. mat_fetch cfg Resolves reg eid = Inr r"
  by (auto simp: mat_fetch_def split: option.splits)

lemma mat_fetch_written:
  "\<exists>msgs. mat_fetch cfg Resolves (written cfg eid reg) eid = Inr (None, msgs)"
proof -
  obtain pl msgs where f: "mat_fetch cfg Resolves reg eid = Inr (pl, msgs)"
    using mat_fetch_Resolves_Inr [of cfg reg eid] by (cases) auto
  show ?thesis
  proof (cases pl)
    case None
    with f show ?thesis by (auto simp: written_None)
  next
    case (Some url)
    with f show ?thesis by (auto simp: written_Some mat_fetch_after_write)
  qed
qed

lemma planned_update:
  assumes ok: "racer_ok cfg eid reg0 (Planned u)"
    and reg: "reg = reg0 \<or> reg = written cfg eid reg0"
  shows "set_monetized_url eid u reg = written cfg eid reg0"
proof -
  from ok have f: "mat_fetch cfg Resolves reg0 eid = Inr (Some u, [])"
    by (simp add: racer_ok_def)
  then have w: "written cfg eid reg0 = set_monetized_url eid u reg0"
    by (rule written_Some)
  from reg show ?thesis
    by (auto simp: w set_monetized_url_idem)
qed

lemma racer_step_weak:
  assumes reg: "reg = reg0 \<or> reg = written cfg eid reg0"
    and ok: "racer_ok cfg eid reg0 r"
    and st: "racer_step cfg eid oc (reg, r) = (reg', r')"
  shows "(reg' = reg0 \<or> reg' = written cfg eid reg0) \<and> racer_ok cfg eid reg0 r'"
proof (cases r)
  case Idle
  show ?thesis
  proof (cases "mat_fetch cfg oc reg eid")
    case (Inl t)
    with st Idle reg show ?thesis by (auto simp: racer_ok_def)
  next
    case (Inr pm)
    obtain pl msgs where pm: "pm = (pl, msgs)" by (cases pm)
    show ?thesis
    proof (cases pl)
      case None
      with st Idle reg Inr pm show ?thesis by (auto simp: racer_ok_def)
    next
      case (Some u)
      with Inr pm have f: "mat_fetch cfg oc reg eid = Inr (Some u, msgs)" by simp
      from mat_fetch_Some [OF f] have oc: "oc = Resolves" and m: "msgs = []" by simp_all
      from mat_fetch_written [of cfg eid reg0] f oc have "reg \<noteq> written cfg eid reg0 \<or> False"
        by auto
      with reg have "reg = reg0" by auto
      with st Idle f oc m show ?thesis by (auto simp: racer_ok_def)
    qed
  qed
next
  case (Planned u)
  with ok reg have w: "set_monetized_url eid u reg = written cfg eid reg0"
    by (simp add: planned_update)
  from st Planned reg w show ?thesis
    by (cases oc) (auto simp: mat_update_def racer_ok_def)
next
  case Finished
  with st reg show ?thesis by (auto simp: racer_ok_def)
qed

lemma racer_step_strong:
  assumes reg: "reg = reg0 \<or> reg = written cfg eid reg0"
    and ok: "racer_ok cfg eid reg0 r"
    and fin: "r = Finished \<longrightarrow> reg = written cfg eid reg0"
    and st: "racer_step cfg eid Resolves (reg, r) = (reg', r')"
  shows "(r' = Finished \<longrightarrow> reg' = written cfg eid reg0) \<and>
         (reg = written cfg eid reg0 \<longrightarrow> reg' = written cfg eid reg0)"
proof (cases r)
  case Idle
  obtain pl msgs where f: "mat_fetch cfg Resolves reg eid = Inr (pl, msgs)"
    using mat_fetch_Resolves_Inr [of cfg reg eid] by auto
  show ?thesis
  proof (cases pl)
    case None
    with f reg have "reg = written cfg eid reg0" by (auto simp: written_None)
    with st Idle f None show ?thesis by auto
  next
    case (Some u)
    with st Idle f show ?thesis by auto
  qed
next
  case (Planned u)
  with ok reg have w: "set_monetized_url eid u reg = written cfg eid reg0"
    by (simp add: planned_update)
  from st Planned w show ?thesis by (auto simp: mat_update_def)
next
  case Finished
  with st fin show ?thesis by auto
qed

lemma run_schedule_weak:
  "race_inv cfg eid reg0 s \<Longrightarrow> race_inv cfg eid reg0 (run_schedule cfg eid sch s)"
proof (induction sch arbitrary: s)
  case Nil
  then show ?case by simp
next
  case (Cons x sch)
  obtain first oc where x: "x = (first, oc)" by (cases x)
  obtain reg a b where s: "s = (reg, a, b)" by (cases s)
  show ?case
  proof (cases first)
    case True
    obtain reg' a' where st: "racer_step cfg eid oc (reg, a) = (reg', a')"
      by (cases "racer_step cfg eid oc (reg, a)")
    from Cons.prems s racer_step_weak [OF _ _ st, of reg0]
    have "race_inv cfg eid reg0 (reg', a', b)" by (auto simp: race_inv_def)
    from Cons.IH [OF this] x s True st show ?thesis by simp
  next
    case False
    obtain reg' b' where st: "racer_step cfg eid oc (reg, b) = (reg', b')"
      by (cases "racer_step cfg eid oc (reg, b)")
    from Cons.prems s racer_step_weak [OF _ _ st, of reg0]
    have "race_inv cfg eid reg0 (reg', a, b')" by (auto simp: race_inv_def)
    from Cons.IH [OF this] x s False st show ?thesis by simp
  qed
qed

lemma run_schedule_strong:
  "fault_free sch \<Longrightarrow> race_inv cfg eid reg0 s \<Longrightarrow> race_fin cfg eid reg0 s \<Longrightarrow>
   race_fin cfg eid reg0 (run_schedule cfg eid sch s)"
proof (induction sch arbitrary: s)
  case Nil
  then show ?case by simp
next
  case (Cons x sch)
  obtain first oc where x: "x = (first, oc)" by (cases x)
  obtain reg a b where s: "s = (reg, a, b)" by (cases s)
  from Cons.prems(1) x have oc: "oc = Resolves" and ff: "fault_free sch"
    by (simp_all add: fault_free_def)
  from Cons.prems(2) s have reg: "reg = reg0 \<or> reg = written cfg eid reg0"
    and oka: "racer_ok cfg eid reg0 a" and okb: "racer_ok cfg eid reg0 b"
    by (simp_all add: race_inv_def)
  show ?case
  proof (cases first)
    case True
    obtain reg' a' where st: "racer_step cfg eid Resolves (reg, a) = (reg', a')"
      by (cases "racer_step cfg eid Resolves (reg, a)")
    from racer_step_weak [OF reg oka st] okb
    have inv': "race_inv cfg eid reg0 (reg', a', b)" by (simp add: race_inv_def)
    from Cons.prems(3) s have "a = Finished \<longrightarrow> reg = written cfg eid reg0"
      and "b = Finished \<longrightarrow> reg = written cfg eid reg0" by (simp_all add: race_fin_def)
    with racer_step_strong [OF reg oka _ st]
    have fin': "race_fin cfg eid reg0 (reg', a', b)" by (auto simp: race_fin_def)
    from Cons.IH [OF ff inv' fin'] x s True st oc show ?thesis by simp
  next
    case False
    obtain reg' b' where st: "racer_step cfg eid Resolves (reg, b) = (reg', b')"
      by (cases "racer_step cfg eid Resolves (reg, b)")
    from racer_step_weak [OF reg okb st] oka
    have inv': "race_inv cfg eid reg0 (reg', a, b')" by (simp add: race_inv_def)
    from Cons.prems(3) s have "a = Finished \<longrightarrow> reg = written cfg eid reg0"
      and "b = Finished \<longrightarrow> reg = written cfg eid reg0" by (simp_all add: race_fin_def)
    with racer_step_strong [OF reg okb _ st]
    have fin': "race_fin cfg eid reg0 (reg', a, b')" by (auto simp: race_fin_def)
    from Cons.IH [OF ff inv' fin'] x s False st oc show ?thesis by simp
  qed
qed

lemma race_any_schedule:
  "fst (race cfg eid sch reg) = reg \<or> fst (race cfg eid sch reg) = written cfg eid reg"
proof -
  have "race_inv cfg eid reg (reg, Idle, Idle)" by (simp add: race_inv_def racer_ok_def)
  from run_schedule_weak [OF this, of sch] show ?thesis
    by (auto simp: race_def race_inv_def split: prod.splits)
qed

lemma race_completed:
  assumes "fault_free sch" "completed (race cfg eid sch reg)"
  shows "fst (race cfg eid sch reg) = written cfg eid reg"
proof -
  have i: "race_inv cfg eid reg (reg, Idle, Idle)" by (simp add: race_inv_def racer_ok_def)
  have f: "race_fin cfg eid reg (reg, Idle, Idle)" by (simp add: race_fin_def)
  from run_schedule_strong [OF assms(1) i f] assms(2) show ?thesis
    by (auto simp: race_def race_fin_def completed_def split: prod.splits)
qed

lemma written_formula:
  assumes "single (filter (\<lambda>r. row_id r = eid) reg) = Some e"
    and "\<not> truthy (monetized_url e)"
    and "username e = Some u" "u \<noteq> []" "api_name_slug e \<noteq> []" "endpoint_path e \<noteq> []"
  shows "written cfg eid reg =
           set_monetized_url eid (monetizedUrl cfg u (api_name_slug e) (endpoint_path e)) reg"
proof -
  from assms have "mat_fetch cfg Resolves reg eid =
      Inr (Some (monetizedUrl cfg u (api_name_slug e) (endpoint_path e)), [])"
    by (simp add: mat_fetch_def)
  then show ?thesis by (rule written_Some)
qed

lemma already_set_unchanged:
  assumes "single (filter (\<lambda>r. row_id r = eid) reg) = Some e" and "truthy (monetized_url e)"
  shows "updateMonetizedUrlForEndpoint cfg Resolves oc reg eid = (reg, [])"
  using assms
  by (simp add: updateMonetizedUrlForEndpoint_def mat_body_def mat_fetch_def)

text \<open>
  C3. The materializer computes the URL as base domain, owner, API slug and path joined
  by slashes; it leaves the registry as it is when the stored value is already set;
  on an endpoint whose value is still empty it stores exactly that URL; two invocations
  racing on the same endpoint, in whatever order their reads and writes interleave and
  whichever of their registry calls fail, leave the registry either untouched or as a
  single invocation leaves it; and when no call fails and both have returned, they
  leave the registry that a single invocation leaves.
\<close>

theorem materializer_deterministic:
  "monetizedUrl cfg u a p = ZEDKR_DOMAIN cfg @ ''/'' @ u @ ''/'' @ a @ ''/'' @ p \<and>
   (single (filter (\<lambda>r. row_id r = eid) reg) = Some e \<and> truthy (monetized_url e) \<longrightarrow>
      updateMonetizedUrlForEndpoint cfg Resolves oc reg eid = (reg, [])) \<and>
   (single (filter (\<lambda>r. row_id r = eid) reg) = Some e \<and> \<not> truthy (monetized_url e) \<and>
    username e = Some u \<and> u \<noteq> [] \<and> api_name_slug e \<noteq> [] \<and> endpoint_path e \<noteq> [] \<longrightarrow>
      fst (updateMonetizedUrlForEndpoint cfg Resolves Resolves reg eid) =
        set_monetized_url eid (monetizedUrl cfg u (api_name_slug e) (endpoint_path e)) reg) \<and>
   (fst (race cfg eid sch reg) = reg \<or>
    fst (race cfg eid sch reg) =
      fst (updateMonetizedUrlForEndpoint cfg Resolves Resolves reg eid)) \<and>
   (fault_free s1 \<and> completed (race cfg eid s1 reg) \<and>
    fault_free s2 \<and> completed (race cfg eid s2 reg) \<longrightarrow>
      fst (race cfg eid s1 reg) = fst (race cfg eid s2 reg) \<and>
      fst (race cfg eid s1 reg) =
        fst (updateMonetizedUrlForEndpoint cfg Resolves Resolves reg eid))"
proof (intro conjI impI)
  show "fst (race cfg eid sch reg) = reg \<or>
    fst (race cfg eid sch reg) =
      fst (updateMonetizedUrlForEndpoint cfg Resolves Resolves reg eid)"
    using race_any_schedule [of cfg eid sch reg] by (simp add: written_def)
next
  show "monetizedUrl cfg u a p = ZEDKR_DOMAIN cfg @ ''/'' @ u @ ''/'' @ a @ ''/'' @ p"
    by (simp add: monetizedUrl_def)
next
  assume "single (filter (\<lambda>r. row_id r = eid) reg) = Some e \<and> truthy (monetized_url e)"
  then show "updateMonetizedUrlForEndpoint cfg Resolves oc reg eid = (reg, [])"
    by (simp add: already_set_unchanged)
next
  assume "single (filter (\<lambda>r. row_id r = eid) reg) = Some e \<and> \<not> truthy (monetized_url e) \<and>
    username e = Some u \<and> u \<noteq> [] \<and> api_name_slug e \<noteq> [] \<and> endpoint_path e \<noteq> []"
  then have "written cfg eid reg =
      set_monetized_url eid (monetizedUrl cfg u (api_name_slug e) (endpoint_path e)) reg"
    by (intro written_formula) simp_all
  then show "fst (updateMonetizedUrlForEndpoint cfg Resolves Resolves reg eid) =
      set_monetized_url eid (monetizedUrl cfg u (api_name_slug e) (endpoint_path e)) reg"
    by (simp add: written_def)
next
  assume h: "fault_free s1 \<and> completed (race cfg eid s1 reg) \<and>
    fault_free s2 \<and> completed (race cfg eid s2 reg)"
  then have 1: "fst (race cfg eid s1 reg) = written cfg eid reg"
    and 2: "fst (race cfg eid s2 reg) = written cfg eid reg"
    by (simp_all add: race_completed)
  from 1 2 show "fst (race cfg eid s1 reg) = fst (race cfg eid s2 reg)" by simp
  from 1 show "fst (race cfg eid s1 reg) =
      fst (updateMonetizedUrlForEndpoint cfg Resolves Resolves reg eid)"
    by (simp add: written_def)
qed

lemmas materializer_eval =
  race_def fault_free_def completed_def mat_fetch_def mat_update_def mat_body_def
  updateMonetizedUrlForEndpoint_def set_monetized_url_def monetizedUrl_def

theorem materializer_deterministic_witness:
  "fst (race example_cfg ''e1''
          [(True, Resolves), (False, Resolves), (False, Resolves), (True, Resolves)]
          [example_row]) =
   fst (race example_cfg ''e1''
          [(False, Resolves), (False, Resolves), (True, Resolves), (True, Resolves)]
          [example_row]) \<and>
   fst (race example_cfg ''e1''
          [(True, Resolves), (False, Resolves), (False, Resolves), (True, Resolves)]
          [example_row]) =
   [example_row\<lparr>monetized_url := Some ''https://zedkr.up.railway.app/alice/weather/today''\<rparr>] \<and>
   updateMonetizedUrlForEndpoint example_cfg Resolves Resolves
     [example_row\<lparr>monetized_url := Some ''https://elsewhere.example/x''\<rparr>] ''e1'' =
   ([example_row\<lparr>monetized_url := Some ''https://elsewhere.example/x''\<rparr>], [])"
  using materializer_deterministic [where cfg = example_cfg and u = "''alice''"
      and eid = "''e1''" and reg = "[example_row]" and e = example_row and oc = Resolves
      and ?s1.0 = "[(True, Resolves), (False, Resolves), (False, Resolves), (True, Resolves)]"
      and ?s2.0 = "[(False, Resolves), (False, Resolves), (True, Resolves), (True, Resolves)]"]
    materializer_deterministic [where cfg = example_cfg and u = "''alice''"
      and eid = "''e1''"
      and reg = "[example_row\<lparr>monetized_url := Some ''https://elsewhere.example/x''\<rparr>]"
      and e = "example_row\<lparr>monetized_url := Some ''https://elsewhere.example/x''\<rparr>"
      and oc = Resolves]
  by (simp add: base_eval materializer_eval)

section \<open>Properties of the resolver\<close>

lemma single_Some: "single xs = Some x \<longleftrightarrow> xs = [x]"
  by (cases xs rule: list.exhaust; cases "tl xs") (auto simp: single_def split: list.splits)

lemma resolve_Some:
  assumes "resolve_endpoint oc reg u a p = Inr (Some e)"
  shows "\<exists>r. filter (matches u a p) reg = [r] \<and> e = route_columns r"
  using assms
  by (auto simp: resolve_endpoint_def single_Some split: db_outcome.splits)

lemma filter_singleton:
  assumes "filter P xs = [r]"
  shows "r \<in> set xs \<and> P r \<and> (\<forall>x \<in> set xs. P x \<longrightarrow> x = r)"
proof -
  have "set (filter P xs) = {r}" using assms by simp
  then show ?thesis by auto
qed

text \<open>
  C8. A triple of owner, API slug and path that no active endpoint matches (there is no
  matching endpoint, or every matching one is inactive) is answered with 404 "Endpoint
  not found", and the registry is left as it is. Resolution gives an endpoint only when
  exactly one row of the registry is active and matches all three components, and then
  it gives that row's selected columns.
\<close>

theorem unknown_endpoint_not_found:
  "(resolve_outcome env \<noteq> Rejects \<and>
    (\<forall>r \<in> set reg. username r = Some (param_username req) \<and>
                     api_name_slug r = param_apiName req \<and>
                     endpoint_path r = param_wildcard req \<longrightarrow> \<not> active r) \<longrightarrow>
      route cfg env reg req = (reg, reply (error_response 404 ''Endpoint not found'') [])) \<and>
   (resolve_endpoint oc reg u a p = Inr (Some e) \<longrightarrow>
      (\<exists>r \<in> set reg. e = route_columns r \<and> active r \<and> username r = Some u \<and>
         api_name_slug r = a \<and> endpoint_path r = p \<and> filter (matches u a p) reg = [r] \<and>
         (\<forall>r' \<in> set reg. matches u a p r' \<longrightarrow> r' = r)))"
proof (intro conjI impI)
  assume h: "resolve_outcome env \<noteq> Rejects \<and>
    (\<forall>r \<in> set reg. username r = Some (param_username req) \<and>
                     api_name_slug r = param_apiName req \<and>
                     endpoint_path r = param_wildcard req \<longrightarrow> \<not> active r)"
  then have "filter (matches (param_username req) (param_apiName req) (param_wildcard req)) reg = []"
    by (auto simp: filter_empty_conv matches_def)
  then have "resolve_endpoint (resolve_outcome env) reg
               (param_username req) (param_apiName req) (param_wildcard req) = Inr None"
    using h by (cases "resolve_outcome env") (simp_all add: resolve_endpoint_def single_def)
  then show "route cfg env reg req = (reg, reply (error_response 404 ''Endpoint not found'') [])"
    by (simp add: route_def)
next
  assume "resolve_endpoint oc reg u a p = Inr (Some e)"
  then obtain r where f: "filter (matches u a p) reg = [r]" and e: "e = route_columns r"
    using resolve_Some by blast
  from filter_singleton [OF f] e f
  show "\<exists>r \<in> set reg. e = route_columns r \<and> active r \<and> username r = Some u \<and>
         api_name_slug r = a \<and> endpoint_path r = p \<and> filter (matches u a p) reg = [r] \<and>
         (\<forall>r' \<in> set reg. matches u a p r' \<longrightarrow> r' = r)"
    by (auto simp: matches_def)
qed

lemmas route_eval =
  route_def after_gate_def resolve_endpoint_def matches_def route_columns_def
  reply_def error_response_def direct_key_def query_param_def header_def
  endpointConfig_of_def mw_config_of_def

theorem unknown_endpoint_not_found_witness:
  "route example_cfg example_env [example_row\<lparr>active := False\<rparr>] example_request =
     ([example_row\<lparr>active := False\<rparr>], reply (error_response 404 ''Endpoint not found'') []) \<and>
   resolve_endpoint Resolves [example_row] ''alice'' ''weather'' ''today'' = Inr (Some example_row) \<and>
   filter (matches ''alice'' ''weather'' ''today'') [example_row] = [example_row]"
  using unknown_endpoint_not_found [of example_env "[example_row\<lparr>active := False\<rparr>]"
      example_request example_cfg Resolves "''alice''" "''weather''" "''today''" example_row]
    unknown_endpoint_not_found [of example_env "[example_row]"
      example_request example_cfg Resolves "''alice''" "''weather''" "''today''" example_row]
  by (simp add: base_eval route_eval)

section \<open>Failures of the materializer\<close>

lemma materializer_fault_fetch:
  assumes "f1 \<noteq> Resolves"
  shows "fst (updateMonetizedUrlForEndpoint cfg f1 f2 reg eid) = reg \<and>
         snd (updateMonetizedUrlForEndpoint cfg f1 f2 reg eid) \<noteq> []"
  using assms
  by (cases f1) (simp_all add: updateMonetizedUrlForEndpoint_def mat_body_def mat_fetch_def)

lemma materializer_fault_update:
  assumes "f2 \<noteq> Resolves"
  shows "fst (updateMonetizedUrlForEndpoint cfg f1 f2 reg eid) = reg"
proof (cases "mat_fetch cfg f1 reg eid")
  case (Inl t)
  then show ?thesis by (simp add: updateMonetizedUrlForEndpoint_def mat_body_def)
next
  case (Inr pm)
  obtain pl msgs where pm: "pm = (pl, msgs)" by (cases pm)
  show ?thesis
  proof (cases pl)
    case None
    with Inr pm show ?thesis by (simp add: updateMonetizedUrlForEndpoint_def mat_body_def)
  next
    case (Some url)
    with Inr pm assms show ?thesis
      by (cases f2) (simp_all add: updateMonetizedUrlForEndpoint_def mat_body_def mat_update_def)
  qed
qed

lemma materializer_absorbs:
  "mat_body cfg f1 f2 reg eid = Inl t \<Longrightarrow>
   updateMonetizedUrlForEndpoint cfg f1 f2 reg eid = (reg, [Error_in_updateMonetizedUrlForEndpoint])"
  by (simp add: updateMonetizedUrlForEndpoint_def)

lemma handleDirectPayment_mat_faults:
  "handleDirectPayment cfg (env\<lparr>mat_fetch_outcome := f1, mat_update_outcome := f2\<rparr>) req ec k =
   handleDirectPayment cfg env req ec k"
  unfolding handleDirectPayment_def
  by (simp cong: if_cong sum.case_cong axios_outcome.case_cong)

lemma handleProxiedRequest_mat_faults:
  "handleProxiedRequest (env\<lparr>mat_fetch_outcome := f1, mat_update_outcome := f2\<rparr>) req ec pay =
   handleProxiedRequest env req ec pay"
  unfolding handleProxiedRequest_def
  by (simp add: origin_request_of_def onProxyReq_headers_def
        cong: if_cong option.case_cong upstream_outcome.case_cong)

lemma after_gate_mat_faults:
  "after_gate cfg (env\<lparr>mat_fetch_outcome := f1, mat_update_outcome := f2\<rparr>) req e =
   after_gate cfg env req e"
  unfolding after_gate_def
  by (simp add: handleDirectPayment_mat_faults handleProxiedRequest_mat_faults
        cong: option.case_cong mw_outcome.case_cong)

lemma route_resolved:
  assumes "resolve_endpoint (resolve_outcome env) reg
             (param_username req) (param_apiName req) (param_wildcard req) = Inr (Some e)"
  shows "fst (route cfg env reg req) =
           fst (updateMonetizedUrlForEndpoint cfg (mat_fetch_outcome env)
                  (mat_update_outcome env) reg (row_id e))"
    and "(snd (route cfg env reg req))\<lparr>console := []\<rparr> = (after_gate cfg env req e)\<lparr>console := []\<rparr>"
proof -
  from assms obtain r where "e = route_columns r"
    using resolve_Some by blast
  then have m: "\<not> truthy (monetized_url e)"
    by (simp add: route_columns_def truthy_def)
  show "fst (route cfg env reg req) =
           fst (updateMonetizedUrlForEndpoint cfg (mat_fetch_outcome env)
                  (mat_update_outcome env) reg (row_id e))"
    using assms m by (simp add: route_def Let_def case_prod_beta)
  show "(snd (route cfg env reg req))\<lparr>console := []\<rparr> = (after_gate cfg env req e)\<lparr>console := []\<rparr>"
    using assms m by (simp add: route_def Let_def case_prod_beta)
qed

lemma route_mat_faults:
  "(snd (route cfg (env\<lparr>mat_fetch_outcome := f1, mat_update_outcome := f2\<rparr>) reg req))\<lparr>console := []\<rparr> =
   (snd (route cfg env reg req))\<lparr>console := []\<rparr>"
proof (cases "resolve_endpoint (resolve_outcome env) reg
                (param_username req) (param_apiName req) (param_wildcard req)")
  case (Inl t)
  then show ?thesis by (simp add: route_def)
next
  case (Inr eo)
  show ?thesis
  proof (cases eo)
    case None
    with Inr show ?thesis by (simp add: route_def)
  next
    case (Some e)
    with Inr have r: "resolve_endpoint (resolve_outcome env) reg
        (param_username req) (param_apiName req) (param_wildcard req) = Inr (Some e)" by simp
    then have r': "resolve_endpoint
        (resolve_outcome (env\<lparr>mat_fetch_outcome := f1, mat_update_outcome := f2\<rparr>)) reg
        (param_username req) (param_apiName req) (param_wildcard req) = Inr (Some e)" by simp
    from route_resolved(2) [OF r, of cfg] route_resolved(2) [OF r', of cfg]
    show ?thesis by (simp add: after_gate_mat_faults)
  qed
qed

text \<open>
  C9. A failure of the materializer does not reach the caller. Whatever its two registry
  calls do (error result or exception), and also when the data for the URL is missing,
  the function returns, an exception being caught inside it, and the registry is left
  as it was; the response, the ledger writes and the requests the route issues are the
  same as without the failure; and the next request to the endpoint runs the
  materializer again, which then stores the URL.
\<close>

theorem materializer_failure_non_fatal:
  "(f1 \<noteq> Resolves \<or> f2 \<noteq> Resolves \<longrightarrow>
      fst (updateMonetizedUrlForEndpoint cfg f1 f2 reg eid) = reg) \<and>
   (mat_body cfg f1 f2 reg eid = Inl Thrown \<longrightarrow>
      updateMonetizedUrlForEndpoint cfg f1 f2 reg eid =
        (reg, [Error_in_updateMonetizedUrlForEndpoint])) \<and>
   (single (filter (\<lambda>r. row_id r = eid) reg) = Some r0 \<and> \<not> truthy (monetized_url r0) \<and>
    (username r0 = None \<or> api_name_slug r0 = [] \<or> endpoint_path r0 = []) \<longrightarrow>
      updateMonetizedUrlForEndpoint cfg Resolves f2 reg eid =
        (reg, [Cannot_generate_monetized_url])) \<and>
   (snd (route cfg (env\<lparr>mat_fetch_outcome := f1, mat_update_outcome := f2\<rparr>) reg req))\<lparr>console := []\<rparr> =
     (snd (route cfg env reg req))\<lparr>console := []\<rparr> \<and>
   (resolve_outcome env = Resolves \<and>
    resolve_endpoint Resolves reg (param_username req) (param_apiName req) (param_wildcard req)
      = Inr (Some e) \<and>
    (f1 \<noteq> Resolves \<or> f2 \<noteq> Resolves) \<longrightarrow>
      fst (route cfg (env\<lparr>mat_fetch_outcome := f1, mat_update_outcome := f2\<rparr>) reg req) = reg \<and>
      fst (route cfg (env\<lparr>mat_fetch_outcome := Resolves, mat_update_outcome := Resolves\<rparr>)
             (fst (route cfg (env\<lparr>mat_fetch_outcome := f1, mat_update_outcome := f2\<rparr>) reg req))
             req) =
        written cfg (row_id e) reg)"
proof (intro conjI impI)
  assume "f1 \<noteq> Resolves \<or> f2 \<noteq> Resolves"
  then show "fst (updateMonetizedUrlForEndpoint cfg f1 f2 reg eid) = reg"
    using materializer_fault_fetch materializer_fault_update by blast
next
  assume "mat_body cfg f1 f2 reg eid = Inl Thrown"
  then show "updateMonetizedUrlForEndpoint cfg f1 f2 reg eid =
      (reg, [Error_in_updateMonetizedUrlForEndpoint])"
    by (rule materializer_absorbs)
next
  assume "single (filter (\<lambda>r. row_id r = eid) reg) = Some r0 \<and> \<not> truthy (monetized_url r0) \<and>
    (username r0 = None \<or> api_name_slug r0 = [] \<or> endpoint_path r0 = [])"
  then show "updateMonetizedUrlForEndpoint cfg Resolves f2 reg eid =
      (reg, [Cannot_generate_monetized_url])"
    by (auto simp: updateMonetizedUrlForEndpoint_def mat_body_def mat_fetch_def
             split: option.splits)
next
  show "(snd (route cfg (env\<lparr>mat_fetch_outcome := f1, mat_update_outcome := f2\<rparr>) reg req))\<lparr>console := []\<rparr> =
     (snd (route cfg env reg req))\<lparr>console := []\<rparr>"
    by (rule route_mat_faults)
next
  assume h: "resolve_outcome env = Resolves \<and>
    resolve_endpoint Resolves reg (param_username req) (param_apiName req) (param_wildcard req)
      = Inr (Some e) \<and>
    (f1 \<noteq> Resolves \<or> f2 \<noteq> Resolves)"
  let ?env1 = "env\<lparr>mat_fetch_outcome := f1, mat_update_outcome := f2\<rparr>"
  let ?env2 = "env\<lparr>mat_fetch_outcome := Resolves, mat_update_outcome := Resolves\<rparr>"
  from h have r1: "resolve_endpoint (resolve_outcome ?env1) reg
      (param_username req) (param_apiName req) (param_wildcard req) = Inr (Some e)" by simp
  from h have r2: "resolve_endpoint (resolve_outcome ?env2) reg
      (param_username req) (param_apiName req) (param_wildcard req) = Inr (Some e)" by simp
  from h have "fst (updateMonetizedUrlForEndpoint cfg f1 f2 reg (row_id e)) = reg"
    using materializer_fault_fetch materializer_fault_update by blast
  with route_resolved(1) [OF r1, of cfg]
  show first: "fst (route cfg ?env1 reg req) = reg" by simp
  from route_resolved(1) [OF r2, of cfg]
  show "fst (route cfg ?env2 (fst (route cfg ?env1 reg req)) req) = written cfg (row_id e) reg"
    by (simp add: first written_def)
qed

theorem materializer_failure_non_fatal_witness:
  "route example_cfg (example_env\<lparr>mat_fetch_outcome := Rejects, mat_update_outcome := Resolves\<rparr>)
     [example_row] example_request =
     ([example_row],
      (snd (route example_cfg example_env [example_row] example_request))
        \<lparr>console := [Error_in_updateMonetizedUrlForEndpoint]\<rparr>) \<and>
   status (response (snd (route example_cfg
     (example_env\<lparr>mat_fetch_outcome := Rejects, mat_update_outcome := Resolves\<rparr>)
     [example_row] example_request))) = 200 \<and>
   fst (route example_cfg example_env
     (fst (route example_cfg
        (example_env\<lparr>mat_fetch_outcome := Rejects, mat_update_outcome := Resolves\<rparr>)
        [example_row] example_request)) example_request) =
     [example_row\<lparr>monetized_url := Some ''https://zedkr.up.railway.app/alice/weather/today''\<rparr>]"
  using materializer_failure_non_fatal [where ?f1.0 = Rejects and ?f2.0 = Resolves
      and cfg = example_cfg and reg = "[example_row]" and eid = "''e1''" and env = example_env
      and req = example_request and e = example_row
      and ?r0.0 = "example_row\<lparr>endpoint_path := []\<rparr>"]
  by (simp add: base_eval route_eval materializer_eval handleProxiedRequest_def
        origin_request_of_def onProxyReq_headers_def admission_record_def to_lower_def
        pathRewrite_def)

section \<open>The payment gate and the forwarding proxy\<close>

lemma route_fields:
  assumes "resolve_endpoint (resolve_outcome env) reg
             (param_username req) (param_apiName req) (param_wildcard req) = Inr (Some e)"
  shows "forwarded (snd (route cfg env reg req)) = forwarded (after_gate cfg env req e)"
    and "ledger (snd (route cfg env reg req)) = ledger (after_gate cfg env req e)"
    and "response (snd (route cfg env reg req)) = response (after_gate cfg env req e)"
    and "reissued (snd (route cfg env reg req)) = reissued (after_gate cfg env req e)"
proof -
  note eq = route_resolved(2) [OF assms, of cfg]
  from arg_cong [OF eq, of forwarded]
  show "forwarded (snd (route cfg env reg req)) = forwarded (after_gate cfg env req e)" by simp
  from arg_cong [OF eq, of ledger]
  show "ledger (snd (route cfg env reg req)) = ledger (after_gate cfg env req e)" by simp
  from arg_cong [OF eq, of response]
  show "response (snd (route cfg env reg req)) = response (after_gate cfg env req e)" by simp
  from arg_cong [OF eq, of reissued]
  show "reissued (snd (route cfg env reg req)) = reissued (after_gate cfg env req e)" by simp
qed

lemma route_unresolved:
  assumes "resolve_endpoint (resolve_outcome env) reg
             (param_username req) (param_apiName req) (param_wildcard req) \<noteq> Inr (Some e)"
    and "\<forall>e'. resolve_endpoint (resolve_outcome env) reg
             (param_username req) (param_apiName req) (param_wildcard req) \<noteq> Inr (Some e')"
  shows "forwarded (snd (route cfg env reg req)) = None"
    and "ledger (snd (route cfg env reg req)) = []"
    and "reissued (snd (route cfg env reg req)) = None"
  using assms(2)
  by (auto simp: route_def reply_def split: sum.splits option.splits)

lemma handleDirectPayment_forwarded:
  "forwarded (handleDirectPayment cfg env req ec k) = None"
  by (simp add: handleDirectPayment_def reply_def Let_def split: sum.split axios_outcome.split)





lemma handleProxiedRequest_forwarded:
  assumes "forwarded (handleProxiedRequest env req ec pay) = Some fr"
  shows "\<exists>u. parse_URL env (ec_original_url ec) = Some u \<and> fr = origin_request_of env req u"
    and "\<not> (pay \<noteq> None \<and> insert_outcome env = Rejects)"
  using assms
  by (auto simp: handleProxiedRequest_def reply_def Let_def
           split: if_splits option.splits upstream_outcome.splits)

lemma handleProxiedRequest_ledger:
  "ledger (handleProxiedRequest env req ec (Some p)) =
     [(Insert (admission_record ec p), insert_outcome env)] \<or>
   (\<exists>st l. ledger (handleProxiedRequest env req ec (Some p)) =
      [(Insert (admission_record ec p), insert_outcome env),
       (Update (transaction p) st l, update_outcome env)])"
  by (auto simp: handleProxiedRequest_def reply_def Let_def
           split: option.splits upstream_outcome.splits)

lemma handleProxiedRequest_receipt:
  assumes "forwarded (handleProxiedRequest env req ec pay) = Some fr"
    and "upstream env fr = ProxyRes st d l False"
  shows "payment_response (response (handleProxiedRequest env req ec pay)) = pay"
  using assms
  by (auto simp: handleProxiedRequest_def reply_def Let_def
           split: if_splits option.splits upstream_outcome.splits)

lemma after_gate_forwarded:
  assumes "forwarded (after_gate cfg env req e) = Some fr"
  shows "direct_key req = None \<and>
         (\<exists>pay. paymentMw env (mw_config_of cfg e) req = MwNext pay \<and>
                after_gate cfg env req e = handleProxiedRequest env req (endpointConfig_of e) pay)"
  using assms
  by (auto simp: after_gate_def handleDirectPayment_forwarded reply_def Let_def
           split: option.splits mw_outcome.splits)

lemma forward_gate:
  assumes "forwarded (snd (route cfg env reg req)) = Some fr"
  shows "direct_key req = None"
proof -
  have "\<exists>e. resolve_endpoint (resolve_outcome env) reg
       (param_username req) (param_apiName req) (param_wildcard req) = Inr (Some e)"
  proof (rule ccontr)
    assume "\<not> ?thesis"
    then have "forwarded (snd (route cfg env reg req)) = None"
      by (intro route_unresolved(1)) auto
    with assms show False by simp
  qed
  then obtain e where res: "resolve_endpoint (resolve_outcome env) reg
       (param_username req) (param_apiName req) (param_wildcard req) = Inr (Some e)" ..
  from assms route_fields(1) [OF res, of cfg]
  have "forwarded (after_gate cfg env req e) = Some fr" by simp
  from after_gate_forwarded [OF this] show ?thesis by simp
qed

text \<open>
  C1. A request is handed to the proxy for the origin only on the path where the endpoint
  resolved, no secret was supplied, and the payment middleware called \<open>next\<close>: nothing
  else reaches \<open>handleProxiedRequest\<close>. The payment the middleware attached is then the
  one the ledger's admission record carries (payer and transaction reference) and the
  one the proxy returns in the \<open>payment-response\<close> header, when the origin answers and
  the headers are not yet sent.
\<close>

theorem forward_only_after_verified:
  assumes "forwarded (snd (route cfg env reg req)) = Some fr"
  shows "\<exists>e pay.
     resolve_endpoint (resolve_outcome env) reg
       (param_username req) (param_apiName req) (param_wildcard req) = Inr (Some e) \<and>
     direct_key req = None \<and>
     paymentMw env (mw_config_of cfg e) req = MwNext pay \<and>
     (\<forall>p. pay = Some p \<longrightarrow>
        inserts (ledger (snd (route cfg env reg req))) = [admission_record (endpointConfig_of e) p] \<and>
        caller_wallet (admission_record (endpointConfig_of e) p) = payer p \<and>
        tx_hash (admission_record (endpointConfig_of e) p) = transaction p \<and>
        (\<forall>st d l. upstream env fr = ProxyRes st d l False \<longrightarrow>
           payment_response (response (snd (route cfg env reg req))) = Some p))"
proof -
  have "\<exists>e. resolve_endpoint (resolve_outcome env) reg
       (param_username req) (param_apiName req) (param_wildcard req) = Inr (Some e)"
  proof (rule ccontr)
    assume "\<not> ?thesis"
    then have "forwarded (snd (route cfg env reg req)) = None"
      by (intro route_unresolved(1)) auto
    with assms show False by simp
  qed
  then obtain e where res: "resolve_endpoint (resolve_outcome env) reg
       (param_username req) (param_apiName req) (param_wildcard req) = Inr (Some e)" ..
  note rf = route_fields [OF res, of cfg]
  from assms rf(1) have fw: "forwarded (after_gate cfg env req e) = Some fr" by simp
  from after_gate_forwarded [OF fw] obtain pay where nk: "direct_key req = None"
    and mw: "paymentMw env (mw_config_of cfg e) req = MwNext pay"
    and ag: "after_gate cfg env req e = handleProxiedRequest env req (endpointConfig_of e) pay"
    by blast
  have "inserts (ledger (snd (route cfg env reg req))) = [admission_record (endpointConfig_of e) p] \<and>
        caller_wallet (admission_record (endpointConfig_of e) p) = payer p \<and>
        tx_hash (admission_record (endpointConfig_of e) p) = transaction p \<and>
        (\<forall>st d l. upstream env fr = ProxyRes st d l False \<longrightarrow>
           payment_response (response (snd (route cfg env reg req))) = Some p)"
    if p: "pay = Some p" for p
  proof -
    from handleProxiedRequest_ledger [of env req "endpointConfig_of e" p]
    have 1: "inserts (ledger (snd (route cfg env reg req))) = [admission_record (endpointConfig_of e) p]"
      by (auto simp: rf(2) ag p)
    have 2: "payment_response (response (snd (route cfg env reg req))) = Some p"
      if "upstream env fr = ProxyRes st d l False" for st d l
      using handleProxiedRequest_receipt [OF _ that, of req "endpointConfig_of e" pay] fw
      by (simp add: rf(3) ag p)
    from 1 2 show ?thesis by (simp add: admission_record_def)
  qed
  with res nk mw show ?thesis by blast
qed

lemmas proxy_eval =
  handleProxiedRequest_def origin_request_of_def onProxyReq_headers_def admission_record_def
  to_lower_def pathRewrite_def

theorem forward_only_after_verified_witness:
  "forwarded (snd (route example_cfg example_env [example_row] example_request)) =
     Some \<lparr>o_target = ''https://origin.example'', o_path = ''/v1/weather?units=c'',
           o_method = ''GET'', o_headers = [(''payment-signature'', ''c2ln'')], o_body = None\<rparr> \<and>
   direct_key example_request = None \<and>
   paymentMw example_env (mw_config_of example_cfg example_row) example_request =
     MwNext (Some example_payment) \<and>
   payment_response (response (snd (route example_cfg example_env [example_row] example_request))) =
     Some example_payment"
  using forward_only_after_verified [of example_cfg example_env "[example_row]" example_request
      "\<lparr>o_target = ''https://origin.example'', o_path = ''/v1/weather?units=c'',
        o_method = ''GET'', o_headers = [(''payment-signature'', ''c2ln'')], o_body = None\<rparr>"]
  by (simp add: base_eval route_eval materializer_eval proxy_eval)

section \<open>The call ledger\<close>






lemmas direct_eval =
  handleDirectPayment_def request_base_def direct_payment_of_def
  direct_request_def delete_privateKey_def direct_record_def direct_failure_def
  error_response_def



text \<open>
  C5. The claim is that no ledger update keyed on an empty or missing transaction
  reference is issued. \<open>onProxyRes\<close> tests only that a payment is attached: for a
  payment whose transaction reference is the empty string, or is missing, it issues
  the update with that key. \<open>handleDirectPayment\<close> tests the reference itself and
  writes nothing when it is empty.
\<close>

theorem update_keyed_on_empty_reference:
  "updates (ledger (snd (route example_cfg
      (example_env\<lparr>paymentMw := (\<lambda>c r. MwNext (Some (example_payment\<lparr>transaction := Some ''''\<rparr>)))\<rparr>)
      [example_row] example_request))) = [(Some '''', 200, 35)] \<and>
   updates (ledger (snd (route example_cfg
      (example_env\<lparr>paymentMw := (\<lambda>c r. MwNext (Some (example_payment\<lparr>transaction := None\<rparr>)))\<rparr>)
      [example_row] example_request))) = [(None, 200, 35)] \<and>
   ledger (snd (route example_cfg
      (example_env\<lparr>api_get := (\<lambda>g k. AxiosResponse 200 ''{}'' PR_absent)\<rparr>)
      [example_row] example_direct_request)) = []"
  by (simp add: base_eval route_eval materializer_eval proxy_eval direct_eval)

lemma origin_request_of_ledger_outcomes:
  "origin_request_of (env\<lparr>update_outcome := f\<rparr>) req u = origin_request_of env req u"
  "origin_request_of (env\<lparr>insert_outcome := f\<rparr>) req u = origin_request_of env req u"
  by (simp_all add: origin_request_of_def onProxyReq_headers_def)

lemma handleProxiedRequest_response:
  "response (handleProxiedRequest env req ec pay) =
     (if pay \<noteq> None \<and> insert_outcome env = Rejects
      then error_response 500 ''Internal server error''
      else case parse_URL env (ec_original_url ec) of
             None \<Rightarrow> error_response 400 ''Invalid target URL''
           | Some u \<Rightarrow>
               (case upstream env (origin_request_of env req u) of
                  ProxyErr \<Rightarrow> error_response 502 ''Failed to proxy request to target API''
                | ProxyRes st d latency headersSent \<Rightarrow>
                    \<lparr>status = st, body = Data d,
                     payment_response = (if headersSent then None else pay)\<rparr>))"
  by (simp add: handleProxiedRequest_def reply_def Let_def
        split: option.split upstream_outcome.split)

lemma update_outcome_ignored:
  "response (handleProxiedRequest (env\<lparr>update_outcome := f\<rparr>) req ec pay) =
   response (handleProxiedRequest env req ec pay)"
  by (simp add: handleProxiedRequest_response origin_request_of_ledger_outcomes
        cong: if_cong option.case_cong upstream_outcome.case_cong)

lemma insert_error_result_ignored:
  assumes "insert_outcome env \<noteq> Rejects"
  shows "response (handleProxiedRequest (env\<lparr>insert_outcome := Resolves_error\<rparr>) req ec pay) =
         response (handleProxiedRequest env req ec pay)"
  using assms
  by (simp add: handleProxiedRequest_response origin_request_of_ledger_outcomes
        cong: if_cong option.case_cong upstream_outcome.case_cong)

text \<open>
  C6. The claim is that a failure of either ledger write never alters the status or the
  body returned to the caller. The update of \<open>onProxyRes\<close> and the insert of
  \<open>handleDirectPayment\<close> are detached and carry their own \<open>catch\<close>. The insert of
  \<open>handleProxiedRequest\<close> is awaited inside the handler's \<open>try\<close> block: when it
  rejects, the caller gets 500 "Internal server error" and the request is not handed to
  the proxy, where the same request gets the origin's 200 when the insert succeeds.
\<close>

theorem insert_rejection_alters_response:
  "response (snd (route example_cfg example_env [example_row] example_request)) =
     \<lparr>status = 200, body = Data ''{}'', payment_response = Some example_payment\<rparr> \<and>
   response (snd (route example_cfg (example_env\<lparr>insert_outcome := Rejects\<rparr>)
                    [example_row] example_request)) =
     \<lparr>status = 500, body = ErrorJson ''Internal server error'', payment_response = None\<rparr> \<and>
   forwarded (snd (route example_cfg (example_env\<lparr>insert_outcome := Rejects\<rparr>)
                    [example_row] example_request)) = None"
  by (simp add: base_eval route_eval materializer_eval proxy_eval)

section \<open>The programmatic payment path\<close>

lemma direct_request_no_privateKey:
  "''privateKey'' \<notin> fst ` set (g_query (direct_request cfg u))"
  by (auto simp: direct_request_def delete_privateKey_def)




text \<open>
  C7. The claim is that on the programmatic path the secret is removed from the URL
  before the request is re-issued and is never forwarded nor written to the logs. The
  handler parses the URL from the request target as received, with the secret in it,
  and deletes the parameter only afterwards: when the parser throws, as it does on the
  base that an empty \<open>Host\<close> header gives, the \<open>catch\<close> prints the error, which carries
  the request target with the secret, to the console, and the caller gets 500.
\<close>

theorem secret_logged_on_invalid_URL:
  "direct_key example_no_host_request = Some (QStr ''k1'') \<and>
   console (snd (route example_cfg example_env [example_row] example_no_host_request)) =
     [Direct_payment_error
        (Invalid_URL ''Invalid URL'' ''/alice/weather/today?units=c&privateKey=k1'')] \<and>
   response (snd (route example_cfg example_env [example_row] example_no_host_request)) =
     \<lparr>status = 500,
      body = ErrorJson ''Failed to process payment with private key: Invalid URL'',
      payment_response = None\<rparr> \<and>
   reissued (snd (route example_cfg example_env [example_row] example_no_host_request)) = None"
  by (simp add: base_eval route_eval materializer_eval direct_eval)



end
